theory Spec2Isabelle
  imports Complex_Main "HOL-Library.List_Lexorder" "HOL-Library.Char_ord"
begin

section \<open>Values, tables and errors\<close>

text \<open>
  The dashboard of \<^verbatim>\<open>app_final.py\<close> works on pandas data frames read from CSV files.
  A frame is modelled row-major: the header and the list of rows, a row being a list of
  cells. A cell is a number (float64 idealised as a real number: rounding is not
  modelled), a string, a timestamp (the calendar day, counted in days since 1970-01-01)
  or the missing value (pandas' NaN / NaT / None).

  Every exception Python can raise in the modelled code is a value of \<open>py_error\<close>, and a
  computation that may raise returns \<open>py_error + 'a\<close>.
\<close>

datatype py_error = KeyError | IndexError | TypeError | ValueError | AttributeError | ParserError

datatype cell = Num real | Str string | Timestamp int | NaN

record dataframe =
  columns :: "string list"
  rows :: "cell list list"

definition bind_err :: "py_error + 'a \<Rightarrow> ('a \<Rightarrow> py_error + 'b) \<Rightarrow> py_error + 'b" where
  "bind_err m f = (case m of Inl e \<Rightarrow> Inl e | Inr x \<Rightarrow> f x)"

text \<open>Running a list of fallible steps: the first exception wins, as in a Python loop.\<close>

fun collect :: "(py_error + 'a) list \<Rightarrow> py_error + 'a list" where
  "collect [] = Inr []"
| "collect (m # ms) =
     (case m of
        Inl e \<Rightarrow> Inl e
      | Inr x \<Rightarrow> (case collect ms of Inl e \<Rightarrow> Inl e | Inr xs \<Rightarrow> Inr (x # xs)))"

section \<open>The artifact loader (\<^verbatim>\<open>load_data\<close>, lines 60-84)\<close>

definition ARTIFACTS_DIR :: string where
  "ARTIFACTS_DIR = ''artifacts''"

definition file_map :: "(string \<times> string) list" where
  "file_map =
     [(''cluster_analysis'', ''cluster_analysis.csv''),
      (''fan_probabilities'', ''fan_purchase_probabilities.csv''),
      (''model_comparison'', ''model_comparison.csv''),
      (''team_forecasts'', ''team_revenue_forecasts.csv''),
      (''revenue_forecast'', ''revenue_forecast_30d.csv''),
      (''xgboost_importance'', ''xgboost_feature_importance.csv''),
      (''lstm_history'', ''lstm_training_history.csv'')]"

text \<open>\<^verbatim>\<open>os.path.join\<close> of two components on a POSIX system.\<close>

definition path_join :: "string \<Rightarrow> string \<Rightarrow> string" where
  "path_join d f =
     (if f \<noteq> [] \<and> hd f = CHR ''/'' then f
      else if d = [] \<or> last d = CHR ''/'' then d @ f
      else d @ ''/'' @ f)"

text \<open>
  The file system is what the loader can observe of it: a path that exists is mapped to
  the outcome of \<^verbatim>\<open>pd.read_csv\<close> on it (the parsed frame, or the exception the parser
  raises); a path that does not exist is mapped to \<open>None\<close>.
\<close>

type_synonym file_system = "string \<rightharpoonup> (py_error + dataframe)"

text \<open>
  The body of \<^verbatim>\<open>load_data\<close>, without its decorator. Beside the result it returns the
  paths it handed to \<^verbatim>\<open>pd.read_csv\<close> (the physical reads). \<^verbatim>\<open>if filename:\<close> is
  Python truthiness of a string or None.
\<close>

definition load_data_raw ::
  "file_system \<Rightarrow> string \<Rightarrow> (py_error + dataframe option) \<times> string list" where
  "load_data_raw fs file_name =
     (case map_of file_map file_name of
        Some filename \<Rightarrow>
          if filename \<noteq> [] then
            (let path = path_join ARTIFACTS_DIR filename in
             case fs path of
               Some (Inr df) \<Rightarrow> (Inr (Some df), [path])
             | Some (Inl e) \<Rightarrow> (Inl e, [path])
             | None \<Rightarrow> (Inr None, []))
          else (Inr None, [])
      | None \<Rightarrow> (Inr None, []))"

text \<open>
  \<^verbatim>\<open>@st.cache_data\<close> (line 63) memoises the function on its argument. Streamlit stores
  the returned value serialised and gives every caller a fresh copy of it; a call that
  raises stores nothing. The session state is therefore:
  \<^item> \<open>cache\<close>: the stored return value of every argument seen so far (a value, not an
    object: \<open>Some None\<close> is a stored \<^verbatim>\<open>None\<close>);
  \<^item> \<open>heap\<close>: the frame objects handed to callers, by address; the in-place assignments of
    the panels act here;
  \<^item> \<open>next_addr\<close>: the next free address;
  \<^item> \<open>reads\<close>: the log of paths handed to \<^verbatim>\<open>pd.read_csv\<close>, oldest first.
\<close>

record session =
  cache :: "string \<rightharpoonup> dataframe option"
  heap :: "nat \<Rightarrow> dataframe"
  next_addr :: nat
  reads :: "string list"

definition new_session :: session where
  "new_session =
     \<lparr>cache = Map.empty, heap = (\<lambda>_. \<lparr>columns = [], rows = []\<rparr>), next_addr = 0, reads = []\<rparr>"

text \<open>Handing a stored value to a caller: \<^verbatim>\<open>None\<close> as it is, a frame as a new object.\<close>

definition hand_out :: "dataframe option \<Rightarrow> session \<Rightarrow> nat option \<times> session" where
  "hand_out v s =
     (case v of
        None \<Rightarrow> (None, s)
      | Some df \<Rightarrow>
          (Some (next_addr s),
           s\<lparr>heap := (heap s)(next_addr s := df), next_addr := Suc (next_addr s)\<rparr>))"

definition load_data ::
  "file_system \<Rightarrow> string \<Rightarrow> session \<Rightarrow> (py_error + nat option) \<times> session" where
  "load_data fs file_name s =
     (case cache s file_name of
        Some v \<Rightarrow> (let (r, s') = hand_out v s in (Inr r, s'))
      | None \<Rightarrow>
          (let (res, rd) = load_data_raw fs file_name;
               s1 = s\<lparr>reads := reads s @ rd\<rparr>
           in case res of
                Inl e \<Rightarrow> (Inl e, s1)
              | Inr v \<Rightarrow>
                  (let (r, s2) = hand_out v (s1\<lparr>cache := (cache s1)(file_name \<mapsto> v)\<rparr>)
                   in (Inr r, s2))))"

text \<open>The content a caller holds: the frame at the address it was given, or nothing.\<close>

definition content :: "session \<Rightarrow> nat option \<Rightarrow> dataframe option" where
  "content s r = map_option (heap s) r"

section \<open>Frame operations\<close>

fun index_of :: "string \<Rightarrow> string list \<Rightarrow> nat option" where
  "index_of c [] = None"
| "index_of c (x # xs) = (if x = c then Some 0 else map_option Suc (index_of c xs))"

text \<open>
  \<^verbatim>\<open>read_csv\<close> fills the missing trailing fields of a short line with NaN, so a row
  shorter than the header reads as NaN beyond its end.
\<close>

definition cell_at :: "cell list \<Rightarrow> nat \<Rightarrow> cell" where
  "cell_at r i = (if i < length r then r ! i else NaN)"

definition pad :: "nat \<Rightarrow> cell list \<Rightarrow> cell list" where
  "pad n r = take n (r @ replicate n NaN)"

text \<open>\<^verbatim>\<open>df[c]\<close>: the column of that name, or KeyError.\<close>

definition get_column :: "dataframe \<Rightarrow> string \<Rightarrow> py_error + cell list" where
  "get_column df c =
     (case index_of c (columns df) of
        None \<Rightarrow> Inl KeyError
      | Some i \<Rightarrow> Inr (map (\<lambda>r. cell_at r i) (rows df)))"

text \<open>
  \<^verbatim>\<open>df[c] = values\<close> as a function of the frame: an existing column is overwritten, a
  new one is appended; pandas raises ValueError when the lengths differ.
\<close>

definition set_column :: "dataframe \<Rightarrow> string \<Rightarrow> cell list \<Rightarrow> py_error + dataframe" where
  "set_column df c vs =
     (if length vs \<noteq> length (rows df) then Inl ValueError
      else
        (let n = length (columns df) in
         case index_of c (columns df) of
           Some i \<Rightarrow>
             Inr (df\<lparr>rows := map (\<lambda>(r, v). (pad n r)[i := v]) (zip (rows df) vs)\<rparr>)
         | None \<Rightarrow>
             Inr (df\<lparr>columns := columns df @ [c],
                     rows := map (\<lambda>(r, v). pad n r @ [v]) (zip (rows df) vs)\<rparr>)))"

text \<open>\<^verbatim>\<open>df.take(indexer)\<close>: the rows at the given positions, in the given order.\<close>

definition take_rows :: "dataframe \<Rightarrow> nat list \<Rightarrow> dataframe" where
  "take_rows df idx = df\<lparr>rows := map (\<lambda>i. rows df ! i) idx\<rparr>"

text \<open>\<^verbatim>\<open>df[mask]\<close>: boolean indexing, a new frame with the rows whose mask is True.\<close>

definition filter_rows :: "dataframe \<Rightarrow> bool list \<Rightarrow> dataframe" where
  "filter_rows df keep = df\<lparr>rows := map fst (filter snd (zip (rows df) keep))\<rparr>"

text \<open>\<^verbatim>\<open>df.rename(columns={old: new})\<close>.\<close>

definition rename :: "dataframe \<Rightarrow> string \<Rightarrow> string \<Rightarrow> dataframe" where
  "rename df old new = df\<lparr>columns := map (\<lambda>c. if c = old then new else c) (columns df)\<rparr>"

text \<open>
  A column the dashboard uses numerically has dtype float64: numbers and NaN. On any
  other cell the model stops with TypeError (pandas keeps such a column as dtype object
  and fails in the reduction or in the numeric formatting that follows); the theorems
  below are all about numeric columns.
\<close>

fun as_float :: "cell \<Rightarrow> py_error + real option" where
  "as_float (Num x) = Inr (Some x)"
| "as_float NaN = Inr None"
| "as_float (Str v) = Inl TypeError"
| "as_float (Timestamp d) = Inl TypeError"

definition float_column :: "dataframe \<Rightarrow> string \<Rightarrow> py_error + real option list" where
  "float_column df c = bind_err (get_column df c) (\<lambda>cs. collect (map as_float cs))"

section \<open>The pandas operations the panels call\<close>

text \<open>\<^verbatim>\<open>Series.sum()\<close>: NaN is skipped (\<^verbatim>\<open>skipna=True\<close>), the empty sum is 0.\<close>

definition series_sum :: "real option list \<Rightarrow> real" where
  "series_sum vs = sum_list (map (\<lambda>v. case v of Some x \<Rightarrow> x | None \<Rightarrow> 0) vs)"

text \<open>
  \<^verbatim>\<open>Series.idxmax()\<close>: the label of the first occurrence of the maximum, NaN skipped;
  ValueError on an empty series (and an exception as well when every value is NaN). The
  scan keeps the best position so far and replaces it only by a strictly larger value. On
  the RangeIndex that \<^verbatim>\<open>read_csv\<close> gives a frame, the label is the position.
\<close>

fun argmax_from :: "nat \<Rightarrow> (nat \<times> real) option \<Rightarrow> real option list \<Rightarrow> (nat \<times> real) option" where
  "argmax_from i best [] = best"
| "argmax_from i best (None # vs) = argmax_from (Suc i) best vs"
| "argmax_from i best (Some x # vs) =
     argmax_from (Suc i)
       (case best of
          None \<Rightarrow> Some (i, x)
        | Some (j, y) \<Rightarrow> if y < x then Some (i, x) else Some (j, y))
       vs"

definition idxmax :: "real option list \<Rightarrow> py_error + nat" where
  "idxmax vs = (case argmax_from 0 None vs of None \<Rightarrow> Inl ValueError | Some (i, m) \<Rightarrow> Inr i)"

text \<open>\<^verbatim>\<open>df.loc[label]\<close> on a RangeIndex: the row at that position, as a series over the header.\<close>

definition loc :: "dataframe \<Rightarrow> nat \<Rightarrow> py_error + cell list" where
  "loc df i = (if i < length (rows df) then Inr (rows df ! i) else Inl KeyError)"

text \<open>\<^verbatim>\<open>row.iloc[k]\<close> and \<^verbatim>\<open>row[c]\<close> on such a row series.\<close>

definition iloc :: "string list \<Rightarrow> cell list \<Rightarrow> nat \<Rightarrow> py_error + cell" where
  "iloc cols r k = (if k < length cols then Inr (cell_at r k) else Inl IndexError)"

definition row_get :: "string list \<Rightarrow> cell list \<Rightarrow> string \<Rightarrow> py_error + cell" where
  "row_get cols r c =
     (case index_of c cols of None \<Rightarrow> Inl KeyError | Some i \<Rightarrow> Inr (cell_at r i))"

text \<open>
  \<^verbatim>\<open>pd.to_datetime\<close> parses what the CSV holds in its date column. The parser is a
  parameter of the model: for a cell it gives the calendar day (days since 1970-01-01),
  \<open>None\<close> (NaT) for a missing value, or the exception it raises.
\<close>

type_synonym datetime_parser = "cell \<Rightarrow> py_error + int option"

definition to_datetime :: "datetime_parser \<Rightarrow> cell list \<Rightarrow> py_error + cell list" where
  "to_datetime parse cs =
     bind_err (collect (map parse cs))
       (\<lambda>ds. Inr (map (\<lambda>d. case d of Some n \<Rightarrow> Timestamp n | None \<Rightarrow> NaN) ds))"

definition weekdays :: "string list" where
  "weekdays = [''Monday'', ''Tuesday'', ''Wednesday'', ''Thursday'', ''Friday'', ''Saturday'', ''Sunday'']"

text \<open>1970-01-01 was a Thursday.\<close>

definition day_name :: "int \<Rightarrow> string" where
  "day_name d = weekdays ! nat ((d + 3) mod 7)"

text \<open>\<^verbatim>\<open>Series.dt.day_name()\<close>; the accessor exists on datetime values only.\<close>

fun dt_day_name_cell :: "cell \<Rightarrow> py_error + cell" where
  "dt_day_name_cell (Timestamp d) = Inr (Str (day_name d))"
| "dt_day_name_cell NaN = Inr NaN"
| "dt_day_name_cell (Num x) = Inl AttributeError"
| "dt_day_name_cell (Str v) = Inl AttributeError"

definition dt_day_name :: "cell list \<Rightarrow> py_error + cell list" where
  "dt_day_name cs = collect (map dt_day_name_cell cs)"

text \<open>
  \<^verbatim>\<open>df.groupby(key)[value].sum()\<close>: one entry per distinct key, in sorted key order; rows
  whose key is missing are dropped; within a group NaN values are skipped. The keys
  grouped here are the day names just written into the frame: strings or missing.
\<close>

fun as_label :: "cell \<Rightarrow> py_error + string option" where
  "as_label (Str v) = Inr (Some v)"
| "as_label NaN = Inr None"
| "as_label (Num x) = Inl TypeError"
| "as_label (Timestamp d) = Inl TypeError"

definition groupby_sum :: "string option list \<Rightarrow> real option list \<Rightarrow> (string \<times> real) list" where
  "groupby_sum keys vals =
     map (\<lambda>k. (k, series_sum (map snd (filter (\<lambda>kv. fst kv = Some k) (zip keys vals)))))
       (sort (remdups (List.map_filter id keys)))"

text \<open>\<^verbatim>\<open>Series.reindex(labels)\<close>: a label the series lacks gets NaN (no \<^verbatim>\<open>fill_value\<close> is given).\<close>

definition reindex :: "(string \<times> real) list \<Rightarrow> string list \<Rightarrow> (string \<times> cell) list" where
  "reindex ser labels =
     map (\<lambda>l. (l, case map_of ser l of Some v \<Rightarrow> Num v | None \<Rightarrow> NaN)) labels"

text \<open>\<^verbatim>\<open>Series.reset_index()\<close>: the index becomes the first column of a frame.\<close>

definition reset_index :: "string \<Rightarrow> string \<Rightarrow> (string \<times> cell) list \<Rightarrow> dataframe" where
  "reset_index index_name value_name ser =
     \<lparr>columns = [index_name, value_name], rows = map (\<lambda>lv. [Str (fst lv), snd lv]) ser\<rparr>"

text \<open>
  Sorting. \<^verbatim>\<open>sort_values\<close> is called without \<^verbatim>\<open>kind\<close>, so pandas sorts with numpy's
  \<^verbatim>\<open>argsort(kind='quicksort')\<close>. numpy's code is not part of the repository and its
  documentation promises of this kind only that the result sorts the array (it lists
  quicksort as not stable), so the argsort is a parameter of the model and \<open>sorts\<close> is
  what is known of it. \<open>nargsort\<close> is pandas' wrapper around it: NaN is put last, and for
  a descending sort the array is reversed before and the result after.
\<close>

type_synonym argsort = "real list \<Rightarrow> nat list"

definition sorts :: "argsort \<Rightarrow> bool" where
  "sorts f \<longleftrightarrow>
     (\<forall>xs. distinct (f xs) \<and> set (f xs) = {..<length xs} \<and> sorted (map (\<lambda>i. xs ! i) (f xs)))"

definition nargsort :: "argsort \<Rightarrow> real option list \<Rightarrow> bool \<Rightarrow> nat list" where
  "nargsort np_argsort items ascending =
     (let pairs = zip [0..<length items] items;
          non_nan = List.map_filter (\<lambda>iv. map_option (Pair (fst iv)) (snd iv)) pairs;
          nan_idx = map fst (filter (\<lambda>iv. snd iv = None) pairs);
          non_nan' = (if ascending then non_nan else rev non_nan);
          indexer = map (\<lambda>j. fst (non_nan' ! j)) (np_argsort (map snd non_nan'));
          indexer' = (if ascending then indexer else rev indexer)
      in indexer' @ nan_idx)"

definition sort_values :: "argsort \<Rightarrow> dataframe \<Rightarrow> string \<Rightarrow> bool \<Rightarrow> py_error + dataframe" where
  "sort_values np_argsort df c ascending =
     bind_err (float_column df c) (\<lambda>k. Inr (take_rows df (nargsort np_argsort k ascending)))"

text \<open>
  \<^verbatim>\<open>df.nlargest(n, column)\<close> with the default \<^verbatim>\<open>keep='first'\<close>: the first \<open>n\<close> rows in
  descending order of the column, earlier rows first among equal values, rows with NaN
  after all others. When \<open>n\<close> is not below the number of rows pandas returns
  \<^verbatim>\<open>sort_values(ascending=False).head(n)\<close>; otherwise it orders the non-NaN values with
  a stable argsort (\<^verbatim>\<open>kind='mergesort'\<close>) of their negation. The column has to be of a
  numeric dtype, or pandas raises TypeError: a column with a text cell is not, and neither
  is a column without any row, which \<^verbatim>\<open>read_csv\<close> types as \<^verbatim>\<open>object\<close>.
\<close>

definition series_nlargest :: "argsort \<Rightarrow> nat \<Rightarrow> real option list \<Rightarrow> nat list" where
  "series_nlargest np_argsort n items =
     (if n = 0 then []
      else if length items \<le> n then take n (nargsort np_argsort items False)
      else
        (let pairs = zip [0..<length items] items;
             non_nan = List.map_filter (\<lambda>iv. map_option (Pair (fst iv)) (snd iv)) pairs;
             nan_idx = map fst (filter (\<lambda>iv. snd iv = None) pairs);
             inds = take n (sort_key (\<lambda>iv. - snd iv) non_nan)
         in take n (map fst inds @ nan_idx)))"

definition nlargest :: "argsort \<Rightarrow> nat \<Rightarrow> dataframe \<Rightarrow> string \<Rightarrow> py_error + dataframe" where
  "nlargest np_argsort n df c =
     bind_err (float_column df c) (\<lambda>k.
       if k = [] then Inl TypeError else Inr (take_rows df (series_nlargest np_argsort n k)))"

text \<open>
  \<^verbatim>\<open>df.melt(id_vars=i, value_vars=vs, var_name=a, value_name=b)\<close>: one row per pair of an
  input row and a value column, value column by value column. pandas raises KeyError for
  a column the frame lacks and ValueError when the frame already has a column named \<open>b\<close>.
\<close>

definition melt ::
  "dataframe \<Rightarrow> string \<Rightarrow> string list \<Rightarrow> string \<Rightarrow> string \<Rightarrow> py_error + dataframe" where
  "melt df id_var value_vars var_name value_name =
     bind_err (get_column df id_var) (\<lambda>ids.
     bind_err (collect (map (get_column df) value_vars)) (\<lambda>cols.
       if value_name \<in> set (columns df) then Inl ValueError else
       Inr \<lparr>columns = [id_var, var_name, value_name],
            rows = concat (map (\<lambda>vc. map (\<lambda>ix. [fst ix, Str (fst vc), snd ix]) (zip ids (snd vc)))
                             (zip value_vars cols))\<rparr>))"

text \<open>
  A chart is what the rendering library is asked to draw: its kind and the named columns
  of the frame it is given. \<^verbatim>\<open>plotly.express\<close> raises ValueError for a column name the
  frame lacks. Colours, titles and layout are not modelled.

  Two of the charts check the values they are given as well. \<^verbatim>\<open>px.scatter(size=c)\<close>
  sets the marker sizes from column \<open>c\<close>, and plotly accepts as a marker size only a
  number that is not negative: a missing, negative or text cell is a ValueError.
  \<^verbatim>\<open>px.treemap(path=[c])\<close> orders the rows by the path column, missing values last, and
  raises ValueError for a row without a path value that follows another row (a row that
  is not a leaf), that is when a path value is missing and the frame has two rows or more.
\<close>

datatype chart = Chart string "(string \<times> cell list) list"

definition px_chart :: "string \<Rightarrow> dataframe \<Rightarrow> string list \<Rightarrow> py_error + chart" where
  "px_chart kind df cs =
     bind_err
       (collect (map (\<lambda>c. case get_column df c of Inl e \<Rightarrow> Inl ValueError | Inr v \<Rightarrow> Inr (c, v)) cs))
       (\<lambda>series. Inr (Chart kind series))"

fun valid_size :: "cell \<Rightarrow> bool" where
  "valid_size (Num x) = (0 \<le> x)"
| "valid_size c = False"

definition px_scatter :: "dataframe \<Rightarrow> string list \<Rightarrow> string \<Rightarrow> py_error + chart" where
  "px_scatter df cs size_column =
     bind_err (px_chart ''scatter'' df cs) (\<lambda>fig.
       case get_column df size_column of
         Inl e \<Rightarrow> Inl ValueError
       | Inr sizes \<Rightarrow> if list_all valid_size sizes then Inr fig else Inl ValueError)"

definition px_treemap :: "dataframe \<Rightarrow> string \<Rightarrow> string list \<Rightarrow> py_error + chart" where
  "px_treemap df path cs =
     bind_err (px_chart ''treemap'' df (path # cs)) (\<lambda>fig.
       case get_column df path of
         Inl e \<Rightarrow> Inl ValueError
       | Inr labels \<Rightarrow> if NaN \<in> set labels \<and> 2 \<le> length labels then Inl ValueError else Inr fig)"

section \<open>Programs over the session\<close>

text \<open>
  A panel runs in the session and either raises or returns; the session it leaves behind
  is the one at the point of the raise or the return.
\<close>

type_synonym 'a prog = "session \<Rightarrow> (py_error + 'a) \<times> session"

definition bind_st :: "'a prog \<Rightarrow> ('a \<Rightarrow> 'b prog) \<Rightarrow> 'b prog" where
  "bind_st m f s = (case m s of (Inl e, s') \<Rightarrow> (Inl e, s') | (Inr x, s') \<Rightarrow> f x s')"

definition pure_st :: "py_error + 'a \<Rightarrow> 'a prog" where
  "pure_st r s = (r, s)"

definition deref :: "nat \<Rightarrow> dataframe prog" where
  "deref a s = (Inr (heap s a), s)"

text \<open>\<^verbatim>\<open>obj[c] = values\<close> on the frame object at address \<open>a\<close>: an update in place.\<close>

definition assign :: "nat \<Rightarrow> string \<Rightarrow> cell list \<Rightarrow> unit prog" where
  "assign a c vs s =
     (case set_column (heap s a) c vs of
        Inl e \<Rightarrow> (Inl e, s)
      | Inr df \<Rightarrow> (Inr (), s\<lparr>heap := (heap s)(a := df)\<rparr>))"

section \<open>The panels\<close>

subsection \<open>\<^verbatim>\<open>display_home\<close> (lines 90-125)\<close>

text \<open>
  What the panel shows: the three metrics (forecast total, label and revenue of the top
  team, number of high-probability fans) before they are formatted, or the single
  \<^verbatim>\<open>st.error\<close> notice of the else branch.
\<close>

datatype home_view = Kpis real cell cell nat | InsufficientData

definition home_kpis :: "dataframe \<Rightarrow> dataframe \<Rightarrow> dataframe \<Rightarrow> py_error + home_view" where
  "home_kpis team_df forecast_df fan_df =
     bind_err (float_column forecast_df ''Revenue_Forecast'') (\<lambda>revenue.
     let total_revenue_forecast = series_sum revenue in
     bind_err (float_column team_df ''Expected_Revenue'') (\<lambda>expected.
     bind_err (idxmax expected) (\<lambda>i.
     bind_err (loc team_df i) (\<lambda>top_team.
     bind_err (float_column fan_df ''Purchase_Probability'') (\<lambda>prob.
     let high_prob_fans =
           length (filter (\<lambda>v. case v of Some p \<Rightarrow> 3 / 4 < p | None \<Rightarrow> False) prob) in
     bind_err (iloc (columns team_df) top_team 0) (\<lambda>label.
     bind_err (row_get (columns team_df) top_team ''Expected_Revenue'') (\<lambda>delta.
       Inr (Kpis total_revenue_forecast label delta high_prob_fans))))))))"

definition display_home :: "file_system \<Rightarrow> home_view prog" where
  "display_home fs =
     bind_st (load_data fs ''team_forecasts'') (\<lambda>team_df.
     bind_st (load_data fs ''revenue_forecast'') (\<lambda>forecast_df.
     bind_st (load_data fs ''fan_probabilities'') (\<lambda>fan_df.
       if team_df \<noteq> None \<and> forecast_df \<noteq> None \<and> fan_df \<noteq> None then
         bind_st (deref (the team_df)) (\<lambda>t.
         bind_st (deref (the forecast_df)) (\<lambda>f.
         bind_st (deref (the fan_df)) (\<lambda>p.
           pure_st (home_kpis t f p))))
       else pure_st (Inr InsufficientData))))"

subsection \<open>\<^verbatim>\<open>display_revenue_forecast\<close> (lines 131-185)\<close>

text \<open>
  The line chart is three traces, each the date column against one value column; the
  second chart is a bar chart of the weekday rollup \<^verbatim>\<open>revenue_by_day\<close>.
\<close>

datatype forecast_view =
  ForecastView "(string \<times> cell list \<times> cell list) list" chart | ForecastUnavailable

definition forecast_traces :: "dataframe \<Rightarrow> py_error + (string \<times> cell list \<times> cell list) list" where
  "forecast_traces df =
     bind_err (get_column df ''Date'') (\<lambda>x1.
     bind_err (get_column df ''Upper_Bound'') (\<lambda>y1.
     bind_err (get_column df ''Date'') (\<lambda>x2.
     bind_err (get_column df ''Lower_Bound'') (\<lambda>y2.
     bind_err (get_column df ''Date'') (\<lambda>x3.
     bind_err (get_column df ''Revenue_Forecast'') (\<lambda>y3.
       Inr [(''Upper_Bound'', x1, y1), (''Lower_Bound'', x2, y2),
            (''Revenue_Forecast'', x3, y3)]))))))"

definition revenue_by_day :: "dataframe \<Rightarrow> py_error + dataframe" where
  "revenue_by_day df =
     bind_err (get_column df ''Day_of_Week'') (\<lambda>key_cells.
     bind_err (collect (map as_label key_cells)) (\<lambda>keys.
     bind_err (float_column df ''Revenue_Forecast'') (\<lambda>vals.
       Inr (reset_index ''Day_of_Week'' ''Revenue_Forecast''
              (reindex (groupby_sum keys vals) weekdays)))))"

definition display_revenue_forecast :: "datetime_parser \<Rightarrow> file_system \<Rightarrow> forecast_view prog" where
  "display_revenue_forecast parse fs =
     bind_st (load_data fs ''revenue_forecast'') (\<lambda>forecast_df.
       case forecast_df of
         None \<Rightarrow> pure_st (Inr ForecastUnavailable)
       | Some a \<Rightarrow>
           bind_st (deref a) (\<lambda>df0.
           bind_st (pure_st (bind_err (get_column df0 ''Date'') (to_datetime parse))) (\<lambda>dates.
           bind_st (assign a ''Date'' dates) (\<lambda>u.
           bind_st (deref a) (\<lambda>df1.
           bind_st (pure_st (forecast_traces df1)) (\<lambda>fig.
           bind_st (pure_st (bind_err (get_column df1 ''Date'') dt_day_name)) (\<lambda>names.
           bind_st (assign a ''Day_of_Week'' names) (\<lambda>u.
           bind_st (deref a) (\<lambda>df2.
           bind_st (pure_st (revenue_by_day df2)) (\<lambda>by_day.
           bind_st (pure_st (px_chart ''bar'' by_day [''Day_of_Week'', ''Revenue_Forecast''])) (\<lambda>fig2.
             pure_st (Inr (ForecastView fig fig2)))))))))))))"

subsection \<open>\<^verbatim>\<open>display_team_revenue\<close> (lines 190-243)\<close>

text \<open>
  \<^verbatim>\<open>sort_values\<close> returns a new frame, and the rename acts on that new frame, to which
  only the local name refers. The view is the bar chart, the treemap and the detail table
  (the frame itself; its number formatting is not modelled).
\<close>

datatype team_view = TeamView chart chart dataframe | TeamUnavailable

definition team_charts :: "argsort \<Rightarrow> dataframe \<Rightarrow> py_error + team_view" where
  "team_charts np_argsort loaded =
     bind_err (sort_values np_argsort loaded ''Expected_Revenue'' False) (\<lambda>sorted_df.
     let team_df = (if ''Unnamed: 0'' \<in> set (columns sorted_df)
                    then rename sorted_df ''Unnamed: 0'' ''Time'' else sorted_df) in
     bind_err (px_chart ''bar'' team_df
                 [''Time'', ''Expected_Revenue'', ''Avg_Purchase_Probability'']) (\<lambda>fig.
     bind_err (px_treemap team_df ''Time''
                 [''Expected_Revenue'', ''Fan_Count'', ''Historical_Avg'']) (\<lambda>fig2.
       Inr (TeamView fig fig2 team_df))))"

definition display_team_revenue :: "argsort \<Rightarrow> file_system \<Rightarrow> team_view prog" where
  "display_team_revenue np_argsort fs =
     bind_st (load_data fs ''team_forecasts'') (\<lambda>team_df.
       case team_df of
         None \<Rightarrow> pure_st (Inr TeamUnavailable)
       | Some a \<Rightarrow> bind_st (deref a) (\<lambda>loaded. pure_st (team_charts np_argsort loaded)))"

subsection \<open>\<^verbatim>\<open>display_fan_segmentation\<close> (lines 249-303)\<close>

datatype segmentation_view = SegmentationView chart chart chart | SegmentationUnavailable

text \<open>
  \<^verbatim>\<open>cluster_df['Cluster'] != 0\<close> is True for every cell that is not the number 0, the
  missing value included.
\<close>

definition segmentation_charts :: "dataframe \<Rightarrow> dataframe \<Rightarrow> py_error + segmentation_view" where
  "segmentation_charts loaded_clusters fan_df =
     bind_err (get_column loaded_clusters ''Cluster'') (\<lambda>cl.
     let cluster_df = filter_rows loaded_clusters (map (\<lambda>c. c \<noteq> Num 0) cl) in
     bind_err (px_chart ''pie'' cluster_df [''Cluster'', ''Revenue_Share'']) (\<lambda>fig1.
     bind_err (px_chart ''bar'' cluster_df [''Cluster'', ''Total_Spent_mean'']) (\<lambda>fig2.
     bind_err (px_scatter fan_df
                 [''Total_Spent'', ''Purchase_Probability'', ''Cluster'', ''fan_id'',
                  ''Favorite_Team''] ''Total_Spent'') (\<lambda>fig3.
       Inr (SegmentationView fig1 fig2 fig3)))))"

definition display_fan_segmentation :: "file_system \<Rightarrow> segmentation_view prog" where
  "display_fan_segmentation fs =
     bind_st (load_data fs ''cluster_analysis'') (\<lambda>cluster_df.
     bind_st (load_data fs ''fan_probabilities'') (\<lambda>fan_df.
       if cluster_df \<noteq> None \<and> fan_df \<noteq> None then
         bind_st (deref (the cluster_df)) (\<lambda>c.
         bind_st (deref (the fan_df)) (\<lambda>f.
           pure_st (segmentation_charts c f)))
       else pure_st (Inr SegmentationUnavailable)))"

subsection \<open>\<^verbatim>\<open>display_model_performance\<close> (lines 309-352)\<close>

text \<open>
  Each of the two charts is there or replaced by a warning (\<open>None\<close>), independently of
  the other. The display order of the bars (\<^verbatim>\<open>categoryorder\<close>) is left to the renderer.
\<close>

datatype performance_view = PerformanceView "chart option" "chart option"

definition comparison_chart :: "dataframe \<Rightarrow> py_error + chart" where
  "comparison_chart comp_df =
     bind_err (melt comp_df ''Model'' [''RMSE'', ''MAE''] ''Metric'' ''Value'') (\<lambda>metrics_df.
       px_chart ''bar'' metrics_df [''Metric'', ''Value'', ''Model''])"

definition importance_chart :: "argsort \<Rightarrow> dataframe \<Rightarrow> py_error + chart" where
  "importance_chart np_argsort loaded =
     bind_err (nlargest np_argsort 15 loaded ''importance'') (\<lambda>importance_df.
       px_chart ''bar'' importance_df [''importance'', ''feature''])"

definition display_model_performance :: "argsort \<Rightarrow> file_system \<Rightarrow> performance_view prog" where
  "display_model_performance np_argsort fs =
     bind_st (load_data fs ''model_comparison'') (\<lambda>comp_df.
     bind_st (load_data fs ''xgboost_importance'') (\<lambda>importance_df.
     bind_st (case comp_df of
                Some a \<Rightarrow> bind_st (deref a) (\<lambda>c.
                            pure_st (bind_err (comparison_chart c) (\<lambda>fig. Inr (Some fig))))
              | None \<Rightarrow> pure_st (Inr None)) (\<lambda>fig1.
     bind_st (case importance_df of
                Some b \<Rightarrow> bind_st (deref b) (\<lambda>d.
                            pure_st (bind_err (importance_chart np_argsort d) (\<lambda>fig. Inr (Some fig))))
              | None \<Rightarrow> pure_st (Inr None)) (\<lambda>fig2.
       pure_st (Inr (PerformanceView fig1 fig2))))))"

section \<open>Example artifacts\<close>

text \<open>
  A small artifacts directory, used to run the model on concrete inputs: two teams tied
  for the highest expected revenue, a forecast with a Monday and a Wednesday only, a fan
  at probability 0.75 exactly and in cluster 0, and cluster 0 holding the largest revenue
  share.
\<close>

definition demo_teams :: dataframe where
  "demo_teams =
     \<lparr>columns = [''Unnamed: 0'', ''Expected_Revenue'', ''Avg_Purchase_Probability'', ''Fan_Count'',
                 ''Historical_Avg''],
      rows = [[Str ''Vasco'', Num 300, Num (1 / 2), Num 5, Num 250],
              [Str ''Flamengo'', Num 500, Num (4 / 5), Num 10, Num 450],
              [Str ''Imperial'', Num 500, Num (3 / 5), Num 8, Num 400]]\<rparr>"

definition demo_forecast :: dataframe where
  "demo_forecast =
     \<lparr>columns = [''Date'', ''Revenue_Forecast'', ''Upper_Bound'', ''Lower_Bound''],
      rows = [[Str ''2024-01-01'', Num 100, Num 120, Num 80],
              [Str ''2024-01-03'', Num 50, Num 60, Num 40]]\<rparr>"

definition demo_fans :: dataframe where
  "demo_fans =
     \<lparr>columns = [''fan_id'', ''Total_Spent'', ''Purchase_Probability'', ''Cluster'', ''Favorite_Team''],
      rows = [[Num 1, Num 900, Num (9 / 10), Num 2, Str ''Flamengo''],
              [Num 2, Num 0, Num (3 / 4), Num 0, Str ''Imperial''],
              [Num 3, Num 120, Num (4 / 5), Num 1, Str ''Vasco'']]\<rparr>"

definition demo_clusters :: dataframe where
  "demo_clusters =
     \<lparr>columns = [''Cluster'', ''Revenue_Share'', ''Total_Spent_mean''],
      rows = [[Num 0, Num 60, Num 5], [Num 1, Num 26, Num 120], [Num 2, Num 14, Num 900]]\<rparr>"

definition demo_fs :: file_system where
  "demo_fs =
     [''artifacts/team_revenue_forecasts.csv'' \<mapsto> Inr demo_teams,
      ''artifacts/revenue_forecast_30d.csv'' \<mapsto> Inr demo_forecast,
      ''artifacts/fan_purchase_probabilities.csv'' \<mapsto> Inr demo_fans,
      ''artifacts/cluster_analysis.csv'' \<mapsto> Inr demo_clusters]"

definition demo_fs_without_fans :: file_system where
  "demo_fs_without_fans =
     [''artifacts/team_revenue_forecasts.csv'' \<mapsto> Inr demo_teams,
      ''artifacts/revenue_forecast_30d.csv'' \<mapsto> Inr demo_forecast]"

definition demo_fs_no_teams_rows :: file_system where
  "demo_fs_no_teams_rows =
     [''artifacts/team_revenue_forecasts.csv'' \<mapsto> Inr (demo_teams\<lparr>rows := []\<rparr>),
      ''artifacts/revenue_forecast_30d.csv'' \<mapsto> Inr demo_forecast,
      ''artifacts/fan_purchase_probabilities.csv'' \<mapsto> Inr demo_fans]"

text \<open>A date parser that knows the two dates of the example forecast (a Monday and a Wednesday).\<close>

definition demo_parse :: datetime_parser where
  "demo_parse c =
     (case c of
        Str v \<Rightarrow> (if v = ''2024-01-01'' then Inr (Some 19723)
                  else if v = ''2024-01-03'' then Inr (Some 19725)
                  else Inl ValueError)
      | NaN \<Rightarrow> Inr None
      | Num x \<Rightarrow> Inl TypeError
      | Timestamp d \<Rightarrow> Inr (Some d))"

text \<open>The sessions \<^verbatim>\<open>display_home\<close> goes through on a new session: after each of its three loads.\<close>

definition home_s1 :: "file_system \<Rightarrow> session" where
  "home_s1 fs = snd (load_data fs ''team_forecasts'' new_session)"

definition home_s2 :: "file_system \<Rightarrow> session" where
  "home_s2 fs = snd (load_data fs ''revenue_forecast'' (home_s1 fs))"

definition home_s3 :: "file_system \<Rightarrow> session" where
  "home_s3 fs = snd (load_data fs ''fan_probabilities'' (home_s2 fs))"



text \<open>The session \<^verbatim>\<open>display_revenue_forecast\<close> goes through after its load on a new session.\<close>

definition forecast_s1 :: "file_system \<Rightarrow> session" where
  "forecast_s1 fs = snd (load_data fs ''revenue_forecast'' new_session)"

text \<open>
  The session after the forecast panel has run a second time, on the session its first
  load left behind (so that its table comes from the cache).
\<close>

definition forecast_s2 :: "file_system \<Rightarrow> session" where
  "forecast_s2 fs = snd (display_revenue_forecast demo_parse fs (forecast_s1 fs))"

text \<open>
  An argsort that sorts: it keeps equal values in their order, which is what numpy does
  for \<^verbatim>\<open>kind='stable'\<close>.
\<close>

definition argsort_stable :: argsort where
  "argsort_stable xs = sort_key (\<lambda>i. xs ! i) [0..<length xs]"

text \<open>
  A model comparison table of two models, and a feature importance table of 17 rows: rows
  1 and 16 tie at the value 5, which is the 15th largest, and row 0 is below them. The
  sessions are those \<^verbatim>\<open>display_model_performance\<close> goes through on a new session.
\<close>

definition demo_features :: "string list" where
  "demo_features =
     [''f00'', ''f01'', ''f02'', ''f03'', ''f04'', ''f05'', ''f06'', ''f07'', ''f08'', ''f09'',
      ''f10'', ''f11'', ''f12'', ''f13'', ''f14'', ''f15'', ''f16'']"

definition demo_importances :: "real list" where
  "demo_importances = [3, 5, 20, 19, 18, 17, 16, 15, 14, 13, 12, 11, 10, 9, 8, 7, 5]"

definition demo_importance :: dataframe where
  "demo_importance =
     \<lparr>columns = [''feature'', ''importance''],
      rows = map (\<lambda>fv. [Str (fst fv), Num (snd fv)]) (zip demo_features demo_importances)\<rparr>"

definition demo_comparison :: dataframe where
  "demo_comparison =
     \<lparr>columns = [''Model'', ''RMSE'', ''MAE''],
      rows = [[Str ''XGBoost'', Num 10, Num 7], [Str ''Prophet'', Num 12, Num 9]]\<rparr>"

definition demo_fs_performance :: file_system where
  "demo_fs_performance =
     [''artifacts/model_comparison.csv'' \<mapsto> Inr demo_comparison,
      ''artifacts/xgboost_feature_importance.csv'' \<mapsto> Inr demo_importance]"

text \<open>A feature importance file that holds the header line only.\<close>

definition demo_importance_header_only :: dataframe where
  "demo_importance_header_only = \<lparr>columns = [''feature'', ''importance''], rows = []\<rparr>"

definition demo_fs_importance_header_only :: file_system where
  "demo_fs_importance_header_only =
     [''artifacts/xgboost_feature_importance.csv'' \<mapsto> Inr demo_importance_header_only]"

definition performance_s1 :: "file_system \<Rightarrow> session" where
  "performance_s1 fs = snd (load_data fs ''model_comparison'' new_session)"

definition performance_s2 :: "file_system \<Rightarrow> session" where
  "performance_s2 fs = snd (load_data fs ''xgboost_importance'' (performance_s1 fs))"

section \<open>Notions used to state the properties\<close>


text \<open>
  Row \<open>j\<close> falls on the weekday named \<open>l\<close>; and the entry of the weekday rollup for
  that weekday: the sum of the forecast over the rows that fall on it, NaN being skipped,
  when there is such a row, and the missing value when there is none.
\<close>

definition on_weekday :: "int option list \<Rightarrow> string \<Rightarrow> nat \<Rightarrow> bool" where
  "on_weekday days l j \<longleftrightarrow> j < length days \<and> map_option day_name (days ! j) = Some l"

definition weekday_total :: "int option list \<Rightarrow> real option list \<Rightarrow> string \<Rightarrow> cell" where
  "weekday_total days vals l =
     (if \<exists>j. on_weekday days l j
      then Num (\<Sum>j | on_weekday days l j \<and> vals ! j \<noteq> None. the (vals ! j))
      else NaN)"

text \<open>
  What a panel may do to the cache: every entry after the call is the entry before it, or
  is new and holds what the loader's body returns for that name. \<open>frames_cache\<close> says it
  of a program, for every session it is run in.
\<close>

definition cache_extended_by_loads :: "file_system \<Rightarrow> session \<Rightarrow> session \<Rightarrow> bool" where
  "cache_extended_by_loads fs s s' \<longleftrightarrow>
     (\<forall>n. cache s' n = cache s n
          \<or> (cache s n = None \<and> (\<exists>v. fst (load_data_raw fs n) = Inr v \<and> cache s' n = Some v)))"

definition frames_cache :: "file_system \<Rightarrow> 'a prog \<Rightarrow> bool" where
  "frames_cache fs p \<longleftrightarrow> (\<forall>s. cache_extended_by_loads fs s (snd (p s)))"

text \<open>
  Descending order of a column with missing values: \<open>x\<close> may stand before \<open>y\<close> when \<open>y\<close>
  is missing, or both are numbers and \<open>x\<close> is not below \<open>y\<close>.
\<close>

definition desc_order :: "real option \<Rightarrow> real option \<Rightarrow> bool" where
  "desc_order x y \<longleftrightarrow>
     (case y of None \<Rightarrow> True | Some v \<Rightarrow> (case x of None \<Rightarrow> False | Some u \<Rightarrow> v \<le> u))"

text \<open>
  The two local lists of \<open>nargsort\<close> and \<open>series_nlargest\<close>, by name: the positions and
  values of the numbers of a column, and the positions of its missing values.
\<close>

definition non_nan_of :: "real option list \<Rightarrow> (nat \<times> real) list" where
  "non_nan_of items =
     List.map_filter (\<lambda>iv. map_option (Pair (fst iv)) (snd iv)) (zip [0..<length items] items)"

definition nan_idx_of :: "real option list \<Rightarrow> nat list" where
  "nan_idx_of items = map fst (filter (\<lambda>iv. snd iv = None) (zip [0..<length items] items))"

text \<open>
  The ranking the claim about the top 15 speaks of: row \<open>i\<close> ranks before row \<open>j\<close> when
  its value is larger, or the values are equal and \<open>i\<close> is the earlier row; a row with a
  value ranks before a row without.
\<close>

definition ranks_before :: "real option list \<Rightarrow> nat \<Rightarrow> nat \<Rightarrow> bool" where
  "ranks_before keys i j \<longleftrightarrow>
     (case keys ! i of
        Some u \<Rightarrow> (case keys ! j of Some v \<Rightarrow> v < u \<or> (u = v \<and> i < j) | None \<Rightarrow> True)
      | None \<Rightarrow> (case keys ! j of Some v \<Rightarrow> False | None \<Rightarrow> i < j))"

text \<open>
  The model comparison table has what its chart needs: the three columns that are melted,
  and no column of the name \<^verbatim>\<open>melt\<close> gives to the values.
\<close>

definition comparison_ready :: "dataframe \<Rightarrow> bool" where
  "comparison_ready df \<longleftrightarrow>
     ''Model'' \<in> set (columns df) \<and> ''RMSE'' \<in> set (columns df) \<and> ''MAE'' \<in> set (columns df)
     \<and> ''Value'' \<notin> set (columns df)"

section \<open>Properties of the loader\<close>

lemmas loader_defs = load_data_def load_data_raw_def hand_out_def file_map_def path_join_def
  ARTIFACTS_DIR_def new_session_def

lemma dom_file_map:
  "dom (map_of file_map) =
     {''cluster_analysis'', ''fan_probabilities'', ''model_comparison'', ''team_forecasts'',
      ''revenue_forecast'', ''xgboost_importance'', ''lstm_history''}"
  unfolding file_map_def by (simp add: dom_map_of_conv_image_fst)

lemma load_data_raw_unknown:
  "file_name \<notin> dom (map_of file_map) \<Longrightarrow> load_data_raw fs file_name = (Inr None, [])"
  by (auto simp: load_data_raw_def dom_def)

section \<open>Properties of the frame operations and of the KPI computation\<close>

lemma collect_Inr_length: "collect ms = Inr xs \<Longrightarrow> length xs = length ms"
  by (induction ms arbitrary: xs) (auto split: sum.splits)

lemma collect_Inr_nth:
  "collect ms = Inr xs \<Longrightarrow> i < length ms \<Longrightarrow> ms ! i = Inr (xs ! i)"
proof (induction ms arbitrary: xs i)
  case Nil
  then show ?case by simp
next
  case (Cons m ms)
  then show ?case by (cases i) (auto split: sum.splits)
qed

lemma collect_map_Inr:
  "(\<And>x. x \<in> set xs \<Longrightarrow> f x = Inr (g x)) \<Longrightarrow> collect (map f xs) = Inr (map g xs)"
  by (induction xs) auto

lemma index_of_less: "index_of c cs = Some i \<Longrightarrow> i < length cs"
  by (induction cs arbitrary: i) (auto split: if_splits)

lemma index_of_nth: "index_of c cs = Some i \<Longrightarrow> cs ! i = c"
  by (induction cs arbitrary: i) (auto split: if_splits)

lemma index_of_None_iff: "index_of c cs = None \<longleftrightarrow> c \<notin> set cs"
  by (induction cs) auto

lemma get_column_length: "get_column df c = Inr cs \<Longrightarrow> length cs = length (rows df)"
  by (auto simp: get_column_def split: option.splits)

lemma float_column_length:
  "float_column df c = Inr vs \<Longrightarrow> length vs = length (rows df)"
  by (auto simp: float_column_def bind_err_def get_column_def
      dest!: collect_Inr_length split: sum.splits option.splits)

lemma float_column_cell:
  assumes "float_column df c = Inr vs" and "i < length (rows df)"
  shows "\<exists>j. index_of c (columns df) = Some j
             \<and> as_float (cell_at (rows df ! i) j) = Inr (vs ! i)"
proof -
  from assms(1) obtain j where j: "index_of c (columns df) = Some j"
    and col: "collect (map as_float (map (\<lambda>r. cell_at r j) (rows df))) = Inr vs"
    by (auto simp: float_column_def bind_err_def get_column_def split: sum.splits option.splits)
  from collect_Inr_nth [OF col, of i] assms(2) have "as_float (cell_at (rows df ! i) j) = Inr (vs ! i)"
    by simp
  with j show ?thesis by blast
qed

lemma as_float_Some: "as_float c = Inr (Some x) \<Longrightarrow> c = Num x"
  by (cases c) auto

lemma argmax_from_None_iff:
  "argmax_from i best vs = None \<longleftrightarrow> best = None \<and> (\<forall>v\<in>set vs. v = None)"
  by (induction i best vs rule: argmax_from.induct) (auto split: option.splits)

lemma argmax_from_Some:
  "argmax_from i best vs = Some (k, m) \<Longrightarrow>
     (\<forall>x. Some x \<in> set vs \<longrightarrow> x \<le> m) \<and> (\<forall>j y. best = Some (j, y) \<longrightarrow> y \<le> m) \<and>
     (best = Some (k, m) \<or>
      (i \<le> k \<and> k - i < length vs \<and> vs ! (k - i) = Some m
       \<and> (\<forall>j<k - i. \<forall>x. vs ! j = Some x \<longrightarrow> x < m)
       \<and> (\<forall>j y. best = Some (j, y) \<longrightarrow> y < m)))"
proof (induction i best vs arbitrary: k m rule: argmax_from.induct)
  case (1 i best)
  then show ?case by simp
next
  case (2 i best vs)
  from 2 have *: "argmax_from (Suc i) best vs = Some (k, m)" by simp
  note IH = "2.IH" [OF *]
  from IH have A: "(\<forall>x. Some x \<in> set vs \<longrightarrow> x \<le> m)" and B: "(\<forall>j y. best = Some (j, y) \<longrightarrow> y \<le> m)"
    by blast+
  from IH consider (keep) "best = Some (k, m)"
    | (new) "Suc i \<le> k" "k - Suc i < length vs" "vs ! (k - Suc i) = Some m"
       "\<forall>j<k - Suc i. \<forall>x. vs ! j = Some x \<longrightarrow> x < m" "\<forall>j y. best = Some (j, y) \<longrightarrow> y < m"
    by blast
  then show ?case
  proof cases
    case keep
    with A B show ?thesis by auto
  next
    case new
    have ki: "k - i = Suc (k - Suc i)" using new(1) by simp
    have "\<forall>j<k - i. \<forall>x. (None # vs) ! j = Some x \<longrightarrow> x < m"
      using new(4) ki by (auto simp: nth_Cons split: nat.splits)
    with new ki A B show ?thesis by auto
  qed
next
  case (3 i best x vs)
  define best' where "best' = (case best of None \<Rightarrow> Some (i, x)
        | Some (j, y) \<Rightarrow> if y < x then Some (i, x) else Some (j, y))"
  from 3(2) have *: "argmax_from (Suc i) best' vs = Some (k, m)" by (simp add: best'_def)
  note IH = "3.IH" [OF * [unfolded best'_def], folded best'_def]
  from IH have A: "(\<forall>x. Some x \<in> set vs \<longrightarrow> x \<le> m)" and B: "(\<forall>j y. best' = Some (j, y) \<longrightarrow> y \<le> m)"
    by blast+
  have xm: "x \<le> m" using B by (auto simp: best'_def split: option.splits if_splits)
  have bm: "\<forall>j y. best = Some (j, y) \<longrightarrow> y \<le> m"
    using B by (auto simp: best'_def split: option.splits if_splits)
  from IH consider (keep) "best' = Some (k, m)"
    | (new) "Suc i \<le> k" "k - Suc i < length vs" "vs ! (k - Suc i) = Some m"
       "\<forall>j<k - Suc i. \<forall>x. vs ! j = Some x \<longrightarrow> x < m" "\<forall>j y. best' = Some (j, y) \<longrightarrow> y < m"
    by blast
  then show ?case
  proof cases
    case keep
    then show ?thesis using A xm bm
      by (auto simp: best'_def split: option.splits if_splits)
  next
    case new
    have ki: "k - i = Suc (k - Suc i)" using new(1) by simp
    have x_lt: "x < m" using new(5) by (auto simp: best'_def split: option.splits if_splits)
    have b_lt: "\<forall>j y. best = Some (j, y) \<longrightarrow> y < m"
      using new(5) by (auto simp: best'_def split: option.splits if_splits)
    have "\<forall>j<k - i. \<forall>z. (Some x # vs) ! j = Some z \<longrightarrow> z < m"
      using new(4) ki x_lt by (auto simp: nth_Cons split: nat.splits)
    with new ki A xm bm b_lt show ?thesis by auto
  qed
qed

lemma idxmax_Inr:
  assumes "idxmax vs = Inr i"
  shows "\<exists>m. i < length vs \<and> vs ! i = Some m
           \<and> (\<forall>j<length vs. \<forall>x. vs ! j = Some x \<longrightarrow> x \<le> m)
           \<and> (\<forall>j<i. \<forall>x. vs ! j = Some x \<longrightarrow> x < m)"
proof -
  from assms obtain m where "argmax_from 0 None vs = Some (i, m)"
    by (auto simp: idxmax_def split: option.splits)
  from argmax_from_Some [OF this] show ?thesis
    by (auto simp: in_set_conv_nth)
qed

lemma idxmax_total:
  "Some x \<in> set vs \<Longrightarrow> \<exists>i. idxmax vs = Inr i"
  using argmax_from_None_iff [of 0 None vs]
  by (cases "argmax_from 0 None vs") (auto simp: idxmax_def)

lemma display_home_unfold:
  assumes "load_data fs ''team_forecasts'' s = (Inr t, s1)"
    and "load_data fs ''revenue_forecast'' s1 = (Inr f, s2)"
    and "load_data fs ''fan_probabilities'' s2 = (Inr p, s3)"
  shows "display_home fs s =
           (if t \<noteq> None \<and> f \<noteq> None \<and> p \<noteq> None
            then (home_kpis (heap s3 (the t)) (heap s3 (the f)) (heap s3 (the p)), s3)
            else (Inr InsufficientData, s3))"
  using assms by (simp add: display_home_def bind_st_def pure_st_def deref_def)

lemma series_sum_conv_sum:
  "series_sum vs = (\<Sum>j | j < length vs \<and> vs ! j \<noteq> None. the (vs ! j))"
proof -
  have "series_sum vs = (\<Sum>j<length vs. case vs ! j of Some x \<Rightarrow> x | None \<Rightarrow> 0)"
    by (simp add: series_sum_def sum_list_sum_nth atLeast0LessThan)
  also have "\<dots> = (\<Sum>j | j < length vs \<and> vs ! j \<noteq> None. case vs ! j of Some x \<Rightarrow> x | None \<Rightarrow> 0)"
    by (rule sum.mono_neutral_right) auto
  also have "\<dots> = (\<Sum>j | j < length vs \<and> vs ! j \<noteq> None. the (vs ! j))"
    by (rule sum.cong) auto
  finally show ?thesis .
qed

lemma count_high_conv_card:
  "length (filter (\<lambda>v. case v of Some p \<Rightarrow> 3 / 4 < p | None \<Rightarrow> False) prob)
     = card {j. j < length prob \<and> (\<exists>x. prob ! j = Some x \<and> 3 / 4 < (x::real))}"
proof -
  have "{j. j < length prob \<and> (case prob ! j of Some p \<Rightarrow> 3 / 4 < p | None \<Rightarrow> False)}
        = {j. j < length prob \<and> (\<exists>x. prob ! j = Some x \<and> 3 / 4 < x)}"
    by (auto split: option.splits)
  then show ?thesis by (simp add: length_filter_conv_card)
qed

lemma home_kpis_result:
  assumes rf: "float_column forecast_df ''Revenue_Forecast'' = Inr revenue"
    and er: "float_column team_df ''Expected_Revenue'' = Inr expected"
    and pp: "float_column fan_df ''Purchase_Probability'' = Inr prob"
    and ex: "Some x \<in> set expected"
  shows "\<exists>i m. home_kpis team_df forecast_df fan_df =
                 Inr (Kpis (series_sum revenue) (cell_at (rows team_df ! i) 0) (Num m)
                        (length (filter (\<lambda>v. case v of Some p \<Rightarrow> 3 / 4 < p | None \<Rightarrow> False) prob)))
               \<and> i < length expected \<and> expected ! i = Some m
               \<and> (\<forall>j<length expected. \<forall>y. expected ! j = Some y \<longrightarrow> y \<le> m)
               \<and> (\<forall>j<i. \<forall>y. expected ! j = Some y \<longrightarrow> y < m)"
proof -
  from idxmax_total [OF ex] obtain i where i: "idxmax expected = Inr i" by blast
  from idxmax_Inr [OF i] obtain m where m: "i < length expected" "expected ! i = Some m"
    "\<forall>j<length expected. \<forall>y. expected ! j = Some y \<longrightarrow> y \<le> m"
    "\<forall>j<i. \<forall>y. expected ! j = Some y \<longrightarrow> y < m" by blast
  have len: "length expected = length (rows team_df)" by (rule float_column_length [OF er])
  with m(1) have irow: "i < length (rows team_df)" by simp
  from float_column_cell [OF er irow] m(2) obtain j where
    j: "index_of ''Expected_Revenue'' (columns team_df) = Some j"
    and c: "cell_at (rows team_df ! i) j = Num m"
    by (auto dest: as_float_Some)
  from index_of_less [OF j] have ne: "columns team_df \<noteq> []" by auto
  have "home_kpis team_df forecast_df fan_df =
          Inr (Kpis (series_sum revenue) (cell_at (rows team_df ! i) 0) (Num m)
                 (length (filter (\<lambda>v. case v of Some p \<Rightarrow> 3 / 4 < p | None \<Rightarrow> False) prob)))"
    using rf er pp i irow j c ne
    by (simp add: home_kpis_def bind_err_def loc_def iloc_def row_get_def)
  with m show ?thesis by blast
qed

section \<open>The example artifacts, loaded\<close>

lemmas frame_defs = float_column_def get_column_def cell_at_def bind_err_def

lemma demo_home_loads:
  "load_data demo_fs ''team_forecasts'' new_session = (Inr (Some 0), home_s1 demo_fs)"
  "load_data demo_fs ''revenue_forecast'' (home_s1 demo_fs) = (Inr (Some (Suc 0)), home_s2 demo_fs)"
  "load_data demo_fs ''fan_probabilities'' (home_s2 demo_fs) = (Inr (Some 2), home_s3 demo_fs)"
  by (simp_all add: home_s1_def home_s2_def home_s3_def loader_defs demo_fs_def)

lemma demo_home_heap:
  "heap (home_s3 demo_fs) 0 = demo_teams"
  "heap (home_s3 demo_fs) (Suc 0) = demo_forecast"
  "heap (home_s3 demo_fs) 2 = demo_fans"
  by (simp_all add: home_s1_def home_s2_def home_s3_def loader_defs demo_fs_def)

lemma demo_home_columns:
  "float_column demo_forecast ''Revenue_Forecast'' = Inr [Some 100, Some 50]"
  "float_column demo_teams ''Expected_Revenue'' = Inr [Some 300, Some 500, Some 500]"
  "float_column demo_fans ''Purchase_Probability'' = Inr [Some (9 / 10), Some (3 / 4), Some (4 / 5)]"
  by (simp_all add: frame_defs demo_forecast_def demo_teams_def demo_fans_def)

lemma demo_home_kpis:
  "home_kpis demo_teams demo_forecast demo_fans = Inr (Kpis 150 (Str ''Flamengo'') (Num 500) 2)"
  unfolding home_kpis_def demo_home_columns
  by (simp add: bind_err_def idxmax_def series_sum_def loc_def iloc_def row_get_def
      demo_teams_def cell_at_def)

lemma demo_home_value:
  "display_home demo_fs new_session = (Inr (Kpis 150 (Str ''Flamengo'') (Num 500) 2), home_s3 demo_fs)"
  using display_home_unfold [OF demo_home_loads]
  by (simp add: demo_home_heap demo_home_kpis)

section \<open>Claims about the executive summary\<close>

text \<open>
  Claim C6. When the three tables are present, their numeric columns are numeric and some
  team has an expected revenue, \<^verbatim>\<open>display_home\<close> shows: (a) the sum of
  \<^verbatim>\<open>Revenue_Forecast\<close> over all rows that have a value; (b) for the row \<open>i\<close> of
  \<^verbatim>\<open>team_forecasts\<close> whose \<^verbatim>\<open>Expected_Revenue\<close> \<open>m\<close> is maximal and which is the first
  row with that value, the first cell of the row and the value \<open>m\<close>; (c) the number of
  rows of \<^verbatim>\<open>fan_probabilities\<close> whose \<^verbatim>\<open>Purchase_Probability\<close> is above 0.75.
\<close>

theorem display_home_kpis:
  assumes "load_data fs ''team_forecasts'' s = (Inr (Some t), s1)"
    and "load_data fs ''revenue_forecast'' s1 = (Inr (Some f), s2)"
    and "load_data fs ''fan_probabilities'' s2 = (Inr (Some p), s3)"
    and "float_column (heap s3 f) ''Revenue_Forecast'' = Inr revenue"
    and "float_column (heap s3 t) ''Expected_Revenue'' = Inr expected"
    and "float_column (heap s3 p) ''Purchase_Probability'' = Inr prob"
    and "Some x \<in> set expected"
  shows "\<exists>i m. display_home fs s =
                 (Inr (Kpis (\<Sum>j | j < length revenue \<and> revenue ! j \<noteq> None. the (revenue ! j))
                         (cell_at (rows (heap s3 t) ! i) 0) (Num m)
                         (card {j. j < length prob \<and> (\<exists>y. prob ! j = Some y \<and> 3 / 4 < y)})), s3)
               \<and> i < length (rows (heap s3 t)) \<and> length expected = length (rows (heap s3 t))
               \<and> expected ! i = Some m
               \<and> (\<forall>j<length expected. \<forall>y. expected ! j = Some y \<longrightarrow> y \<le> m)
               \<and> (\<forall>j<i. expected ! j \<noteq> Some m)"
proof -
  from home_kpis_result [OF assms(4-7)] obtain i m where
    k: "home_kpis (heap s3 t) (heap s3 f) (heap s3 p) =
          Inr (Kpis (series_sum revenue) (cell_at (rows (heap s3 t) ! i) 0) (Num m)
                 (length (filter (\<lambda>v. case v of Some p \<Rightarrow> 3 / 4 < p | None \<Rightarrow> False) prob)))"
    and m: "i < length expected" "expected ! i = Some m"
      "\<forall>j<length expected. \<forall>y. expected ! j = Some y \<longrightarrow> y \<le> m"
      "\<forall>j<i. \<forall>y. expected ! j = Some y \<longrightarrow> y < m" by blast
  have len: "length expected = length (rows (heap s3 t))" by (rule float_column_length [OF assms(5)])
  have first: "\<forall>j<i. expected ! j \<noteq> Some m" using m(4) by auto
  have "display_home fs s =
          (Inr (Kpis (\<Sum>j | j < length revenue \<and> revenue ! j \<noteq> None. the (revenue ! j))
                  (cell_at (rows (heap s3 t) ! i) 0) (Num m)
                  (card {j. j < length prob \<and> (\<exists>y. prob ! j = Some y \<and> 3 / 4 < y)})), s3)"
    using display_home_unfold [OF assms(1-3)] k
    by (simp add: series_sum_conv_sum count_high_conv_card)
  with m len first show ?thesis by auto
qed

theorem display_home_kpis_witness:
  "load_data demo_fs ''team_forecasts'' new_session = (Inr (Some 0), home_s1 demo_fs)
   \<and> load_data demo_fs ''revenue_forecast'' (home_s1 demo_fs) = (Inr (Some (Suc 0)), home_s2 demo_fs)
   \<and> load_data demo_fs ''fan_probabilities'' (home_s2 demo_fs) = (Inr (Some 2), home_s3 demo_fs)
   \<and> float_column (heap (home_s3 demo_fs) (Suc 0)) ''Revenue_Forecast'' = Inr [Some 100, Some 50]
   \<and> float_column (heap (home_s3 demo_fs) 0) ''Expected_Revenue''
        = Inr [Some 300, Some 500, Some 500]
   \<and> float_column (heap (home_s3 demo_fs) 2) ''Purchase_Probability''
        = Inr [Some (9 / 10), Some (3 / 4), Some (4 / 5)]
   \<and> display_home demo_fs new_session
        = (Inr (Kpis 150 (Str ''Flamengo'') (Num 500) 2), home_s3 demo_fs)"
proof -
  let ?rev = "[Some 100, Some (50::real)]"
  let ?exp = "[Some 300, Some 500, Some (500::real)]"
  let ?prob = "[Some (9 / 10), Some (3 / 4), Some (4 / 5 :: real)]"
  have c1: "float_column (heap (home_s3 demo_fs) (Suc 0)) ''Revenue_Forecast'' = Inr ?rev"
    and c2: "float_column (heap (home_s3 demo_fs) 0) ''Expected_Revenue'' = Inr ?exp"
    and c3: "float_column (heap (home_s3 demo_fs) 2) ''Purchase_Probability'' = Inr ?prob"
    by (simp_all only: demo_home_heap demo_home_columns)
  have x: "Some 300 \<in> set ?exp" by simp
  from display_home_kpis [OF demo_home_loads c1 c2 c3 x] obtain i m where
    d: "display_home demo_fs new_session =
          (Inr (Kpis (\<Sum>j | j < length ?rev \<and> ?rev ! j \<noteq> None. the (?rev ! j))
                  (cell_at (rows (heap (home_s3 demo_fs) 0) ! i) 0) (Num m)
                  (card {j. j < length ?prob \<and> (\<exists>y. ?prob ! j = Some y \<and> 3 / 4 < y)})),
           home_s3 demo_fs)"
    and i: "i < length (rows (heap (home_s3 demo_fs) 0))"
    and im: "?exp ! i = Some m"
    and mx: "\<forall>j<length ?exp. \<forall>y. ?exp ! j = Some y \<longrightarrow> y \<le> m"
    and first: "\<forall>j<i. ?exp ! j \<noteq> Some m"
    by blast
  from i have cases: "i = 0 \<or> i = 1 \<or> i = 2"
    by (auto simp: demo_home_heap demo_teams_def)
  from mx [rule_format, of 1 500] have ge: "500 \<le> m" by simp
  from cases im ge have m: "m = 500" by auto
  have i1: "i = 1"
  proof (rule ccontr)
    assume "i \<noteq> 1"
    with cases im ge have "i = 2" by auto
    with first [rule_format, of 1] m show False by simp
  qed
  have total: "(\<Sum>j | j < length ?rev \<and> ?rev ! j \<noteq> None. the (?rev ! j)) = 150"
  proof -
    have "series_sum ?rev = 150" by (simp add: series_sum_def)
    then show ?thesis by (simp only: series_sum_conv_sum)
  qed
  have high: "card {j. j < length ?prob \<and> (\<exists>y. ?prob ! j = Some y \<and> 3 / 4 < y)} = 2"
  proof -
    have "length (filter (\<lambda>v. case v of Some p \<Rightarrow> 3 / 4 < p | None \<Rightarrow> False) ?prob) = 2"
      by simp
    then show ?thesis by (simp only: count_high_conv_card)
  qed
  have label: "cell_at (rows (heap (home_s3 demo_fs) 0) ! 1) 0 = Str ''Flamengo''"
    by (simp add: demo_home_heap demo_teams_def cell_at_def)
  from d have "display_home demo_fs new_session
        = (Inr (Kpis 150 (Str ''Flamengo'') (Num 500) 2), home_s3 demo_fs)"
    unfolding total high m i1 label .
  with demo_home_loads c1 c2 c3 show ?thesis by blast
qed

text \<open>
  Claim C7. When the three loads return and one of them returns \<^verbatim>\<open>None\<close>, the panel is
  the single notice and nothing else: no KPI is computed.
\<close>

theorem display_home_all_or_nothing:
  assumes "load_data fs ''team_forecasts'' s = (Inr t, s1)"
    and "load_data fs ''revenue_forecast'' s1 = (Inr f, s2)"
    and "load_data fs ''fan_probabilities'' s2 = (Inr p, s3)"
    and "t = None \<or> f = None \<or> p = None"
  shows "display_home fs s = (Inr InsufficientData, s3)"
  using display_home_unfold [OF assms(1-3)] assms(4) by auto

lemma demo_without_fans_loads:
  "load_data demo_fs_without_fans ''team_forecasts'' new_session
     = (Inr (Some 0), home_s1 demo_fs_without_fans)"
  "load_data demo_fs_without_fans ''revenue_forecast'' (home_s1 demo_fs_without_fans)
     = (Inr (Some (Suc 0)), home_s2 demo_fs_without_fans)"
  "load_data demo_fs_without_fans ''fan_probabilities'' (home_s2 demo_fs_without_fans)
     = (Inr None, home_s3 demo_fs_without_fans)"
  by (simp_all add: home_s1_def home_s2_def home_s3_def loader_defs demo_fs_without_fans_def)

theorem display_home_all_or_nothing_witness:
  "load_data demo_fs_without_fans ''team_forecasts'' new_session
     = (Inr (Some 0), home_s1 demo_fs_without_fans)
   \<and> load_data demo_fs_without_fans ''revenue_forecast'' (home_s1 demo_fs_without_fans)
     = (Inr (Some (Suc 0)), home_s2 demo_fs_without_fans)
   \<and> load_data demo_fs_without_fans ''fan_probabilities'' (home_s2 demo_fs_without_fans)
     = (Inr None, home_s3 demo_fs_without_fans)
   \<and> display_home demo_fs_without_fans new_session
     = (Inr InsufficientData, home_s3 demo_fs_without_fans)"
  using display_home_all_or_nothing [OF demo_without_fans_loads] demo_without_fans_loads
  by simp

text \<open>
  Claim C10. When the three tables are present and \<^verbatim>\<open>team_forecasts\<close> has no rows, the
  panel raises: no KPI is shown (\<^verbatim>\<open>idxmax\<close> of the empty column raises ValueError, unless
  an earlier step has raised already).
\<close>

theorem display_home_empty_teams_raises:
  assumes "load_data fs ''team_forecasts'' s = (Inr (Some t), s1)"
    and "load_data fs ''revenue_forecast'' s1 = (Inr (Some f), s2)"
    and "load_data fs ''fan_probabilities'' s2 = (Inr (Some p), s3)"
    and "rows (heap s3 t) = []"
  shows "\<exists>e. display_home fs s = (Inl e, s3)"
proof -
  have "\<exists>e. home_kpis (heap s3 t) (heap s3 f) (heap s3 p) = Inl e"
  proof (cases "float_column (heap s3 f) ''Revenue_Forecast''")
    case (Inl e)
    then show ?thesis by (simp add: home_kpis_def bind_err_def)
  next
    case (Inr revenue)
    show ?thesis
    proof (cases "float_column (heap s3 t) ''Expected_Revenue''")
      case (Inl e)
      with Inr show ?thesis by (simp add: home_kpis_def bind_err_def)
    next
      case expected: (Inr expected)
      from float_column_length [OF expected] assms(4) have "expected = []" by simp
      with Inr expected show ?thesis
        by (simp add: home_kpis_def bind_err_def idxmax_def)
    qed
  qed
  with display_home_unfold [OF assms(1-3)] show ?thesis by auto
qed

lemma demo_no_teams_rows_loads:
  "load_data demo_fs_no_teams_rows ''team_forecasts'' new_session
     = (Inr (Some 0), home_s1 demo_fs_no_teams_rows)"
  "load_data demo_fs_no_teams_rows ''revenue_forecast'' (home_s1 demo_fs_no_teams_rows)
     = (Inr (Some (Suc 0)), home_s2 demo_fs_no_teams_rows)"
  "load_data demo_fs_no_teams_rows ''fan_probabilities'' (home_s2 demo_fs_no_teams_rows)
     = (Inr (Some 2), home_s3 demo_fs_no_teams_rows)"
  "rows (heap (home_s3 demo_fs_no_teams_rows) 0) = []"
  by (simp_all add: home_s1_def home_s2_def home_s3_def loader_defs demo_fs_no_teams_rows_def)

theorem display_home_empty_teams_raises_witness:
  "load_data demo_fs_no_teams_rows ''team_forecasts'' new_session
     = (Inr (Some 0), home_s1 demo_fs_no_teams_rows)
   \<and> load_data demo_fs_no_teams_rows ''revenue_forecast'' (home_s1 demo_fs_no_teams_rows)
     = (Inr (Some (Suc 0)), home_s2 demo_fs_no_teams_rows)
   \<and> load_data demo_fs_no_teams_rows ''fan_probabilities'' (home_s2 demo_fs_no_teams_rows)
     = (Inr (Some 2), home_s3 demo_fs_no_teams_rows)
   \<and> rows (heap (home_s3 demo_fs_no_teams_rows) 0) = []
   \<and> (\<exists>e. display_home demo_fs_no_teams_rows new_session
             = (Inl e, home_s3 demo_fs_no_teams_rows))"
  using display_home_empty_teams_raises [OF demo_no_teams_rows_loads] demo_no_teams_rows_loads
  by simp

section \<open>Claims about the loader\<close>

text \<open>
  Claim C3, as the code has it. The mapping from logical names to files is defined on
  exactly the seven names. A name outside the seven is not an error: the undecorated body
  returns \<^verbatim>\<open>None\<close> without touching the file system, and the cached function returns
  \<^verbatim>\<open>None\<close> and stores it, which is the very value a missing file gives.
\<close>

theorem load_data_unknown_name_is_absent:
  "dom (map_of file_map) =
     {''cluster_analysis'', ''fan_probabilities'', ''model_comparison'', ''team_forecasts'',
      ''revenue_forecast'', ''xgboost_importance'', ''lstm_history''}
   \<and> (file_name \<notin> dom (map_of file_map) \<longrightarrow>
        load_data_raw fs file_name = (Inr None, [])
        \<and> (cache s file_name = None \<longrightarrow>
             load_data fs file_name s = (Inr None, s\<lparr>cache := (cache s)(file_name \<mapsto> None)\<rparr>)))"
  using dom_file_map load_data_raw_unknown [of file_name fs]
  by (auto simp: load_data_def hand_out_def)

theorem load_data_unknown_name_is_absent_witness:
  "''sales'' \<notin> dom (map_of file_map) \<and> cache new_session ''sales'' = None
   \<and> load_data demo_fs ''sales'' new_session
       = (Inr None, new_session\<lparr>cache := (cache new_session)(''sales'' \<mapsto> None)\<rparr>)"
  using load_data_unknown_name_is_absent [of "''sales''" demo_fs new_session]
  by (simp add: new_session_def)

text \<open>
  Claim C3 as stated fails: the unknown name \<^verbatim>\<open>sales\<close> does not raise, it returns the
  same \<^verbatim>\<open>None\<close> as the known name \<^verbatim>\<open>lstm_history\<close> whose file is missing.
\<close>

theorem load_data_unknown_name_counterexample:
  "fst (load_data demo_fs ''sales'' new_session) = Inr None
   \<and> fst (load_data Map.empty ''lstm_history'' new_session) = Inr None"
  by (simp add: loader_defs)

text \<open>
  Claim C5. When a call \<^verbatim>\<open>load_data(n)\<close> returns, it has read at most one file, and the
  next call for the same name, whatever the file system holds by then, returns the same
  content without reading and leaves the cache as it is; so the same holds for every
  later call, and a name is read at most once.
\<close>

theorem load_data_second_call_cached:
  assumes "load_data fs n s = (Inr r1, s1)"
  shows "length (reads s1) \<le> Suc (length (reads s))
         \<and> (\<exists>r2 s2. load_data fs' n s1 = (Inr r2, s2)
               \<and> content s2 r2 = content s1 r1
               \<and> reads s2 = reads s1 \<and> cache s2 = cache s1)"
  using assms
  by (auto simp: load_data_def load_data_raw_def hand_out_def content_def Let_def
      split: option.splits sum.splits if_splits prod.splits)

lemma demo_load_teams:
  "load_data demo_fs ''team_forecasts'' new_session =
     (Inr (Some 0),
      \<lparr>cache = [''team_forecasts'' \<mapsto> Some demo_teams],
       heap = (heap new_session)(0 := demo_teams), next_addr = 1,
       reads = [''artifacts/team_revenue_forecasts.csv'']\<rparr>)"
  by (simp add: loader_defs demo_fs_def)

theorem load_data_second_call_cached_witness:
  "load_data demo_fs ''team_forecasts'' new_session =
     (Inr (Some 0),
      \<lparr>cache = [''team_forecasts'' \<mapsto> Some demo_teams],
       heap = (heap new_session)(0 := demo_teams), next_addr = 1,
       reads = [''artifacts/team_revenue_forecasts.csv'']\<rparr>)
   \<and> (\<exists>r2 s2. load_data Map.empty ''team_forecasts''
                 \<lparr>cache = [''team_forecasts'' \<mapsto> Some demo_teams],
                  heap = (heap new_session)(0 := demo_teams), next_addr = 1,
                  reads = [''artifacts/team_revenue_forecasts.csv'']\<rparr> = (Inr r2, s2)
          \<and> content s2 r2 = Some demo_teams
          \<and> reads s2 = [''artifacts/team_revenue_forecasts.csv''])"
  using load_data_second_call_cached [OF demo_load_teams, of Map.empty] demo_load_teams
  by (auto simp: content_def)

section \<open>Claims about the fan segmentation\<close>

lemma px_chart_Inr:
  assumes "list_all2 (\<lambda>c v. get_column df c = Inr v) cs vs"
  shows "px_chart kind df cs = Inr (Chart kind (zip cs vs))"
proof -
  from assms have "collect (map (\<lambda>c. case get_column df c of Inl e \<Rightarrow> Inl ValueError
                                          | Inr v \<Rightarrow> Inr (c, v)) cs) = Inr (zip cs vs)"
    by (induction cs vs rule: list_all2_induct) auto
  then show ?thesis by (simp add: px_chart_def bind_err_def)
qed














section \<open>Claims about the revenue forecast\<close>

lemma index_of_append:
  "index_of c (cs @ ds) =
     (case index_of c cs of Some i \<Rightarrow> Some i
      | None \<Rightarrow> map_option (\<lambda>i. length cs + i) (index_of c ds))"
proof (induction cs)
  case Nil
  show ?case by (cases "index_of c ds") auto
next
  case (Cons a cs)
  then show ?case by (cases "index_of c ds") (auto split: option.splits)
qed

lemma length_pad [simp]: "length (pad n r) = n"
  by (simp add: pad_def)

lemma cell_at_pad: "i < n \<Longrightarrow> cell_at (pad n r) i = cell_at r i"
  by (auto simp: cell_at_def pad_def nth_append)

lemma set_column_Inr:
  assumes "length vs = length (rows df)"
  shows "\<exists>df'. set_column df c vs = Inr df' \<and> get_column df' c = Inr vs
               \<and> (\<forall>c'. c' \<noteq> c \<longrightarrow> get_column df' c' = get_column df c')"
proof (cases "index_of c (columns df)")
  case None
  let ?n = "length (columns df)"
  let ?df = "df\<lparr>columns := columns df @ [c],
                  rows := map (\<lambda>(r, v). pad ?n r @ [v]) (zip (rows df) vs)\<rparr>"
  have s: "set_column df c vs = Inr ?df" using assms None by (simp add: set_column_def)
  have ic: "index_of c (columns df @ [c]) = Some ?n"
    using None by (simp add: index_of_append)
  have "map (\<lambda>r. cell_at r ?n) (map (\<lambda>(r, v). pad ?n r @ [v]) (zip (rows df) vs))
          = map snd (zip (rows df) vs)"
    by (auto simp: cell_at_def nth_append)
  also have "\<dots> = vs" using assms by simp
  finally have same: "get_column ?df c = Inr vs" using ic by (simp add: get_column_def)
  have other: "get_column ?df c' = get_column df c'" if "c' \<noteq> c" for c'
  proof (cases "index_of c' (columns df)")
    case None
    with that show ?thesis by (simp add: get_column_def index_of_append)
  next
    case (Some i)
    then have i: "i < ?n" by (rule index_of_less)
    have "map (\<lambda>r. cell_at r i) (map (\<lambda>(r, v). pad ?n r @ [v]) (zip (rows df) vs))
            = map (\<lambda>r. cell_at r i) (map fst (zip (rows df) vs))"
      using i cell_at_pad [OF i] by (auto simp: cell_at_def nth_append)
    also have "map fst (zip (rows df) vs) = rows df" using assms by simp
    finally show ?thesis using Some by (simp add: get_column_def index_of_append)
  qed
  from s same other show ?thesis by blast
next
  case (Some i)
  let ?n = "length (columns df)"
  let ?df = "df\<lparr>rows := map (\<lambda>(r, v). (pad ?n r)[i := v]) (zip (rows df) vs)\<rparr>"
  from Some have i: "i < ?n" by (rule index_of_less)
  have s: "set_column df c vs = Inr ?df" using assms Some by (simp add: set_column_def)
  have "map (\<lambda>r. cell_at r i) (map (\<lambda>(r, v). (pad ?n r)[i := v]) (zip (rows df) vs))
          = map snd (zip (rows df) vs)"
    using i by (auto simp: cell_at_def)
  also have "\<dots> = vs" using assms by simp
  finally have same: "get_column ?df c = Inr vs" using Some by (simp add: get_column_def)
  have other: "get_column ?df c' = get_column df c'" if "c' \<noteq> c" for c'
  proof (cases "index_of c' (columns df)")
    case None
    then show ?thesis by (simp add: get_column_def)
  next
    case j: (Some j)
    then have jn: "j < ?n" by (rule index_of_less)
    have "j \<noteq> i" using index_of_nth [OF j] index_of_nth [OF Some] that by auto
    then have "map (\<lambda>r. cell_at r j) (map (\<lambda>(r, v). (pad ?n r)[i := v]) (zip (rows df) vs))
            = map (\<lambda>r. cell_at r j) (map fst (zip (rows df) vs))"
      using jn cell_at_pad [OF jn] by (auto simp: cell_at_def)
    also have "map fst (zip (rows df) vs) = rows df" using assms by simp
    finally show ?thesis using j by (simp add: get_column_def)
  qed
  from s same other show ?thesis by blast
qed

lemma float_column_cong:
  "get_column df' c = get_column df c \<Longrightarrow> float_column df' c = float_column df c"
  by (simp add: float_column_def)

lemma to_datetime_Inr:
  "collect (map parse cs) = Inr days \<Longrightarrow>
     to_datetime parse cs = Inr (map (\<lambda>d. case d of Some n \<Rightarrow> Timestamp n | None \<Rightarrow> NaN) days)"
  by (simp add: to_datetime_def bind_err_def)

lemma dt_day_name_Inr:
  "dt_day_name (map (\<lambda>d. case d of Some n \<Rightarrow> Timestamp n | None \<Rightarrow> NaN) days)
     = Inr (map (\<lambda>d. case d of Some n \<Rightarrow> Str (day_name n) | None \<Rightarrow> NaN) days)"
  unfolding dt_day_name_def map_map
  by (rule collect_map_Inr) (auto split: option.splits)

lemma as_label_Inr:
  "collect (map as_label (map (\<lambda>d. case d of Some n \<Rightarrow> Str (day_name n) | None \<Rightarrow> NaN) days))
     = Inr (map (map_option day_name) days)"
  unfolding map_map
  by (rule collect_map_Inr) (auto split: option.splits)

lemma map_of_groupby_sum:
  "map_of (groupby_sum keys vals) l =
     (if Some l \<in> set keys
      then Some (series_sum (map snd (filter (\<lambda>kv. fst kv = Some l) (zip keys vals))))
      else None)"
proof -
  have "set (sort (remdups (List.map_filter id keys))) = {k. Some k \<in> set keys}"
    by (force simp: List.map_filter_def image_iff)
  then show ?thesis
    by (auto simp: groupby_sum_def map_of_map_restrict restrict_map_def)
qed

lemma sum_list_filter_zip:
  fixes g :: "'a \<times> 'b \<Rightarrow> real"
  assumes "length ks = length vs"
  shows "sum_list (map g (filter P (zip ks vs)))
           = (\<Sum>j | j < length ks \<and> P (ks ! j, vs ! j). g (ks ! j, vs ! j))"
proof -
  have "sum_list (map g (filter P (zip ks vs)))
          = sum_list (map (\<lambda>x. if P x then g x else 0) (zip ks vs))"
    by (simp add: sum_list_map_filter')
  also have "\<dots> = (\<Sum>j<length ks. if P (ks ! j, vs ! j) then g (ks ! j, vs ! j) else 0)"
    using assms by (auto simp: sum_list_sum_nth atLeast0LessThan intro!: sum.cong)
  also have "\<dots> = (\<Sum>j | j < length ks \<and> P (ks ! j, vs ! j). g (ks ! j, vs ! j))"
    by (simp add: sum.If_cases Int_def lessThan_def)
  finally show ?thesis .
qed

lemma group_total:
  assumes "length days = length vals"
  shows "series_sum (map snd (filter (\<lambda>kv. fst kv = Some l) (zip (map (map_option day_name) days) vals)))
           = (\<Sum>j | on_weekday days l j \<and> vals ! j \<noteq> None. the (vals ! j))"
proof -
  let ?keys = "map (map_option day_name) days"
  let ?g = "\<lambda>kv :: string option \<times> real option. case snd kv of Some x \<Rightarrow> x | None \<Rightarrow> 0"
  have len: "length ?keys = length vals" using assms by simp
  have "series_sum (map snd (filter (\<lambda>kv. fst kv = Some l) (zip ?keys vals)))
          = sum_list (map ?g (filter (\<lambda>kv. fst kv = Some l) (zip ?keys vals)))"
    by (simp add: series_sum_def comp_def)
  also have "\<dots> = (\<Sum>j | j < length ?keys \<and> fst (?keys ! j, vals ! j) = Some l. ?g (?keys ! j, vals ! j))"
    by (rule sum_list_filter_zip [OF len])
  also have "\<dots> = (\<Sum>j | on_weekday days l j. case vals ! j of Some x \<Rightarrow> x | None \<Rightarrow> 0)"
    by (rule sum.cong) (auto simp: on_weekday_def)
  also have "\<dots> = (\<Sum>j | on_weekday days l j \<and> vals ! j \<noteq> None. case vals ! j of Some x \<Rightarrow> x | None \<Rightarrow> 0)"
    by (rule sum.mono_neutral_right) (auto simp: on_weekday_def split: option.splits)
  also have "\<dots> = (\<Sum>j | on_weekday days l j \<and> vals ! j \<noteq> None. the (vals ! j))"
    by (rule sum.cong) auto
  finally show ?thesis .
qed

lemma reindex_groupby:
  assumes "length days = length vals"
  shows "reindex (groupby_sum (map (map_option day_name) days) vals) labels
           = map (\<lambda>l. (l, weekday_total days vals l)) labels"
proof -
  have "(Some l \<in> set (map (map_option day_name) days)) \<longleftrightarrow> (\<exists>j. on_weekday days l j)" for l
  proof
    assume "Some l \<in> set (map (map_option day_name) days)"
    then obtain j where "j < length days" "map (map_option day_name) days ! j = Some l"
      unfolding in_set_conv_nth by auto
    then have "on_weekday days l j" unfolding on_weekday_def by simp
    then show "\<exists>j. on_weekday days l j" ..
  next
    assume "\<exists>j. on_weekday days l j"
    then obtain j where "j < length days" "map_option day_name (days ! j) = Some l"
      unfolding on_weekday_def by blast
    then have "map (map_option day_name) days ! j = Some l" "j < length (map (map_option day_name) days)"
      by simp_all
    then show "Some l \<in> set (map (map_option day_name) days)"
      by (metis nth_mem)
  qed
  then show ?thesis
    by (simp add: reindex_def map_of_groupby_sum weekday_total_def group_total [OF assms])
qed

lemma revenue_by_day_chart:
  assumes dow: "get_column df ''Day_of_Week''
                  = Inr (map (\<lambda>d. case d of Some n \<Rightarrow> Str (day_name n) | None \<Rightarrow> NaN) days)"
    and rf: "float_column df ''Revenue_Forecast'' = Inr vals"
  shows "bind_err (revenue_by_day df) (\<lambda>by_day. px_chart ''bar'' by_day [''Day_of_Week'', ''Revenue_Forecast''])
           = Inr (Chart ''bar'' [(''Day_of_Week'', map Str weekdays),
                                 (''Revenue_Forecast'', map (weekday_total days vals) weekdays)])"
proof -
  have "length days = length (rows df)" using get_column_length [OF dow] by simp
  with float_column_length [OF rf] have len: "length days = length vals" by simp
  have r: "revenue_by_day df = Inr (reset_index ''Day_of_Week'' ''Revenue_Forecast''
              (map (\<lambda>l. (l, weekday_total days vals l)) weekdays))"
    unfolding revenue_by_day_def dow rf
    by (simp only: bind_err_def sum.case as_label_Inr reindex_groupby [OF len])
  have "px_chart ''bar'' (reset_index ''Day_of_Week'' ''Revenue_Forecast''
              (map (\<lambda>l. (l, weekday_total days vals l)) weekdays)) [''Day_of_Week'', ''Revenue_Forecast'']
          = Inr (Chart ''bar'' (zip [''Day_of_Week'', ''Revenue_Forecast'']
                   [map Str weekdays, map (weekday_total days vals) weekdays]))"
    by (rule px_chart_Inr) (simp add: get_column_def reset_index_def cell_at_def comp_def)
  with r show ?thesis by (simp add: bind_err_def)
qed


lemma assign_Inr:
  "set_column (heap s a) c vs = Inr df \<Longrightarrow> assign a c vs s = (Inr (), s\<lparr>heap := (heap s)(a := df)\<rparr>)"
  by (simp add: assign_def)

lemma demo_forecast_load:
  "load_data demo_fs ''revenue_forecast'' new_session = (Inr (Some 0), forecast_s1 demo_fs)"
  by (simp add: forecast_s1_def loader_defs demo_fs_def)

lemma demo_forecast_heap: "heap (forecast_s1 demo_fs) 0 = demo_forecast"
  by (simp add: forecast_s1_def loader_defs demo_fs_def)

lemma demo_forecast_columns:
  "get_column demo_forecast ''Date'' = Inr [Str ''2024-01-01'', Str ''2024-01-03'']"
  "get_column demo_forecast ''Upper_Bound'' = Inr [Num 120, Num 60]"
  "get_column demo_forecast ''Lower_Bound'' = Inr [Num 80, Num 40]"
  "float_column demo_forecast ''Revenue_Forecast'' = Inr [Some 100, Some 50]"
  by (simp_all add: float_column_def get_column_def cell_at_def bind_err_def demo_forecast_def)

lemma demo_parse_dates:
  "collect (map demo_parse [Str ''2024-01-01'', Str ''2024-01-03'']) = Inr [Some 19723, Some 19725]"
  by (simp add: demo_parse_def)

lemma weekday_total_eval:
  "length days = length vals \<Longrightarrow>
     map (weekday_total days vals) labels
       = map snd (reindex (groupby_sum (map (map_option day_name) days) vals) labels)"
  by (simp add: reindex_groupby comp_def)

lemma demo_rollup:
  "map (weekday_total [Some 19723, Some 19725] [Some 100, Some 50])
     [''Monday'', ''Tuesday'', ''Wednesday'', ''Thursday'', ''Friday'', ''Saturday'', ''Sunday'']
   = [Num 100, NaN, Num 50, NaN, NaN, NaN, NaN]"
  by (subst weekday_total_eval)
    (simp_all add: reindex_def groupby_sum_def List.map_filter_simps series_sum_def day_name_def
      weekdays_def)

text \<open>
  Claim C1, as the code has it. When the forecast table is present, has the four columns
  the panel reads, its dates parse and its forecast column is numeric, the bar chart of
  the weekday rollup has exactly seven entries, Monday to Sunday in this order; the entry
  of a weekday on which rows fall is the sum of \<^verbatim>\<open>Revenue_Forecast\<close> over these rows, and
  the entry of a weekday on which no row falls is the missing value NaN
  (\<^verbatim>\<open>reindex\<close> is called without \<^verbatim>\<open>fill_value\<close>), not 0. The cache and the read log are
  as the load left them.
\<close>

theorem display_revenue_forecast_weekday_rollup:
  assumes load: "load_data fs ''revenue_forecast'' s = (Inr (Some a), s1)"
    and date: "get_column (heap s1 a) ''Date'' = Inr date_cells"
    and parse: "collect (map parse date_cells) = Inr days"
    and ub: "get_column (heap s1 a) ''Upper_Bound'' = Inr upper"
    and lb: "get_column (heap s1 a) ''Lower_Bound'' = Inr lower"
    and rf: "float_column (heap s1 a) ''Revenue_Forecast'' = Inr vals"
  shows "\<exists>traces s'. display_revenue_forecast parse fs s =
           (Inr (ForecastView traces
                   (Chart ''bar''
                      [(''Day_of_Week'',
                        map Str [''Monday'', ''Tuesday'', ''Wednesday'', ''Thursday'', ''Friday'',
                                 ''Saturday'', ''Sunday'']),
                       (''Revenue_Forecast'',
                        map (weekday_total days vals)
                          [''Monday'', ''Tuesday'', ''Wednesday'', ''Thursday'', ''Friday'',
                           ''Saturday'', ''Sunday''])])), s')
           \<and> cache s' = cache s1 \<and> reads s' = reads s1"
proof -
  let ?df0 = "heap s1 a"
  let ?dates = "map (\<lambda>d. case d of Some n \<Rightarrow> Timestamp n | None \<Rightarrow> NaN) days"
  let ?names = "map (\<lambda>d. case d of Some n \<Rightarrow> Str (day_name n) | None \<Rightarrow> NaN) days"
  have len: "length days = length (rows ?df0)"
    using collect_Inr_length [OF parse] get_column_length [OF date] by simp
  from rf obtain rfc where rfc: "get_column ?df0 ''Revenue_Forecast'' = Inr rfc"
    by (auto simp: float_column_def bind_err_def split: sum.splits)
  from set_column_Inr [of ?dates ?df0 "''Date''"] len obtain df1 where
    df1: "set_column ?df0 ''Date'' ?dates = Inr df1"
    and d1: "get_column df1 ''Date'' = Inr ?dates"
    and o1: "\<forall>c'. c' \<noteq> ''Date'' \<longrightarrow> get_column df1 c' = get_column ?df0 c'"
    by auto
  define s2 where "s2 = s1\<lparr>heap := (heap s1)(a := df1)\<rparr>"
  have a1: "assign a ''Date'' ?dates s1 = (Inr (), s2)"
    unfolding s2_def by (rule assign_Inr [OF df1])
  have h2: "heap s2 a = df1" by (simp add: s2_def)
  have ub1: "get_column df1 ''Upper_Bound'' = Inr upper"
    and lb1: "get_column df1 ''Lower_Bound'' = Inr lower"
    and rf1: "get_column df1 ''Revenue_Forecast'' = Inr rfc"
    using o1 ub lb rfc by simp_all
  have tr: "forecast_traces df1 = Inr [(''Upper_Bound'', ?dates, upper), (''Lower_Bound'', ?dates, lower),
            (''Revenue_Forecast'', ?dates, rfc)]"
    by (simp add: forecast_traces_def bind_err_def d1 ub1 lb1 rf1)
  have len1: "length ?names = length (rows df1)"
    using get_column_length [OF d1] by simp
  from set_column_Inr [of ?names df1 "''Day_of_Week''"] len1 obtain df2 where
    df2: "set_column df1 ''Day_of_Week'' ?names = Inr df2"
    and d2: "get_column df2 ''Day_of_Week'' = Inr ?names"
    and o2: "\<forall>c'. c' \<noteq> ''Day_of_Week'' \<longrightarrow> get_column df2 c' = get_column df1 c'"
    by auto
  define s3 where "s3 = s2\<lparr>heap := (heap s2)(a := df2)\<rparr>"
  have a2: "assign a ''Day_of_Week'' ?names s2 = (Inr (), s3)"
    unfolding s3_def by (rule assign_Inr) (simp add: h2 df2)
  have h3: "heap s3 a = df2" by (simp add: s3_def)
  have "get_column df2 ''Revenue_Forecast'' = get_column ?df0 ''Revenue_Forecast''"
    using o1 o2 by simp
  then have rf2: "float_column df2 ''Revenue_Forecast'' = Inr vals"
    using rf by (simp add: float_column_def)
  note chart = revenue_by_day_chart [OF d2 rf2]
  have "display_revenue_forecast parse fs s =
          (Inr (ForecastView [(''Upper_Bound'', ?dates, upper), (''Lower_Bound'', ?dates, lower),
                              (''Revenue_Forecast'', ?dates, rfc)]
                  (Chart ''bar'' [(''Day_of_Week'', map Str weekdays),
                                  (''Revenue_Forecast'', map (weekday_total days vals) weekdays)])), s3)"
    using chart
    by (auto simp: display_revenue_forecast_def bind_st_def pure_st_def deref_def load date
        to_datetime_Inr [OF parse] bind_err_def a1 h2 tr d1 dt_day_name_Inr a2 h3
        split: sum.splits)
  moreover have "cache s3 = cache s1" "reads s3 = reads s1" by (simp_all add: s3_def s2_def)
  ultimately show ?thesis by (simp add: weekdays_def)
qed

theorem display_revenue_forecast_weekday_rollup_witness:
  "load_data demo_fs ''revenue_forecast'' new_session = (Inr (Some 0), forecast_s1 demo_fs)
   \<and> get_column (heap (forecast_s1 demo_fs) 0) ''Date'' = Inr [Str ''2024-01-01'', Str ''2024-01-03'']
   \<and> collect (map demo_parse [Str ''2024-01-01'', Str ''2024-01-03''])
       = Inr [Some 19723, Some 19725]
   \<and> get_column (heap (forecast_s1 demo_fs) 0) ''Upper_Bound'' = Inr [Num 120, Num 60]
   \<and> get_column (heap (forecast_s1 demo_fs) 0) ''Lower_Bound'' = Inr [Num 80, Num 40]
   \<and> float_column (heap (forecast_s1 demo_fs) 0) ''Revenue_Forecast'' = Inr [Some 100, Some 50]
   \<and> (\<exists>traces s'. display_revenue_forecast demo_parse demo_fs new_session =
         (Inr (ForecastView traces
                 (Chart ''bar''
                    [(''Day_of_Week'',
                      [Str ''Monday'', Str ''Tuesday'', Str ''Wednesday'', Str ''Thursday'',
                       Str ''Friday'', Str ''Saturday'', Str ''Sunday'']),
                     (''Revenue_Forecast'', [Num 100, NaN, Num 50, NaN, NaN, NaN, NaN])])), s'))"
proof -
  have c: "get_column (heap (forecast_s1 demo_fs) 0) ''Date'' = Inr [Str ''2024-01-01'', Str ''2024-01-03'']"
    "get_column (heap (forecast_s1 demo_fs) 0) ''Upper_Bound'' = Inr [Num 120, Num 60]"
    "get_column (heap (forecast_s1 demo_fs) 0) ''Lower_Bound'' = Inr [Num 80, Num 40]"
    "float_column (heap (forecast_s1 demo_fs) 0) ''Revenue_Forecast'' = Inr [Some 100, Some 50]"
    by (simp_all only: demo_forecast_heap demo_forecast_columns)
  from display_revenue_forecast_weekday_rollup
    [OF demo_forecast_load c(1) demo_parse_dates c(2) c(3) c(4)]
  obtain traces s' where "display_revenue_forecast demo_parse demo_fs new_session =
         (Inr (ForecastView traces
                 (Chart ''bar''
                    [(''Day_of_Week'',
                      map Str [''Monday'', ''Tuesday'', ''Wednesday'', ''Thursday'', ''Friday'',
                               ''Saturday'', ''Sunday'']),
                     (''Revenue_Forecast'',
                      map (weekday_total [Some 19723, Some 19725] [Some 100, Some 50])
                        [''Monday'', ''Tuesday'', ''Wednesday'', ''Thursday'', ''Friday'',
                         ''Saturday'', ''Sunday''])])), s')"
    by blast
  then have "\<exists>traces s'. display_revenue_forecast demo_parse demo_fs new_session =
         (Inr (ForecastView traces
                 (Chart ''bar''
                    [(''Day_of_Week'',
                      [Str ''Monday'', Str ''Tuesday'', Str ''Wednesday'', Str ''Thursday'',
                       Str ''Friday'', Str ''Saturday'', Str ''Sunday'']),
                     (''Revenue_Forecast'', [Num 100, NaN, Num 50, NaN, NaN, NaN, NaN])])), s')"
    unfolding demo_rollup by simp
  with demo_forecast_load c demo_parse_dates show ?thesis by blast
qed

text \<open>
  Claim C1 as stated fails on the example of the specification, a Monday of 100 and a
  Wednesday of 50: the other five weekdays are there, with NaN and not with 0.
\<close>

theorem display_revenue_forecast_missing_weekday_counterexample:
  "fst (display_revenue_forecast demo_parse demo_fs new_session) =
     Inr (ForecastView
            [(''Upper_Bound'', [Timestamp 19723, Timestamp 19725], [Num 120, Num 60]),
             (''Lower_Bound'', [Timestamp 19723, Timestamp 19725], [Num 80, Num 40]),
             (''Revenue_Forecast'', [Timestamp 19723, Timestamp 19725], [Num 100, Num 50])]
            (Chart ''bar''
               [(''Day_of_Week'',
                 [Str ''Monday'', Str ''Tuesday'', Str ''Wednesday'', Str ''Thursday'',
                  Str ''Friday'', Str ''Saturday'', Str ''Sunday'']),
                (''Revenue_Forecast'', [Num 100, NaN, Num 50, NaN, NaN, NaN, NaN])]))"
  by (simp add: display_revenue_forecast_def bind_st_def pure_st_def deref_def demo_forecast_load
      demo_forecast_heap demo_forecast_def get_column_def cell_at_def bind_err_def to_datetime_def
      demo_parse_def assign_def set_column_def pad_def forecast_traces_def dt_day_name_def
      day_name_def weekdays_def revenue_by_day_def float_column_def groupby_sum_def
      List.map_filter_simps series_sum_def reindex_def reset_index_def px_chart_def)

section \<open>Claims about the cache and the panels\<close>

lemma cache_extended_refl: "cache_extended_by_loads fs s s"
  by (simp add: cache_extended_by_loads_def)

lemma cache_extended_same: "cache s' = cache s \<Longrightarrow> cache_extended_by_loads fs s s'"
  by (simp add: cache_extended_by_loads_def)

lemma cache_extended_trans:
  assumes "cache_extended_by_loads fs s s'" and "cache_extended_by_loads fs s' s''"
  shows "cache_extended_by_loads fs s s''"
  unfolding cache_extended_by_loads_def
proof
  fix n
  from assms(1) have a: "cache s' n = cache s n
      \<or> (cache s n = None \<and> (\<exists>v. fst (load_data_raw fs n) = Inr v \<and> cache s' n = Some v))"
    by (simp add: cache_extended_by_loads_def)
  from assms(2) have b: "cache s'' n = cache s' n
      \<or> (cache s' n = None \<and> (\<exists>v. fst (load_data_raw fs n) = Inr v \<and> cache s'' n = Some v))"
    by (simp add: cache_extended_by_loads_def)
  from a b show "cache s'' n = cache s n
      \<or> (cache s n = None \<and> (\<exists>v. fst (load_data_raw fs n) = Inr v \<and> cache s'' n = Some v))"
    by auto
qed

lemma frames_load_data: "frames_cache fs (load_data fs n)"
  unfolding frames_cache_def cache_extended_by_loads_def
  by (auto simp: load_data_def hand_out_def Let_def split: option.splits sum.splits prod.splits)

lemma frames_pure_st: "frames_cache fs (pure_st r)"
  by (simp add: frames_cache_def pure_st_def cache_extended_refl)

lemma frames_deref: "frames_cache fs (deref a)"
  by (simp add: frames_cache_def deref_def cache_extended_refl)

lemma frames_assign: "frames_cache fs (assign a c vs)"
  by (auto simp: frames_cache_def assign_def cache_extended_refl cache_extended_same
      split: sum.splits)

lemma frames_bind_st:
  assumes "frames_cache fs m" and "\<And>x. frames_cache fs (f x)"
  shows "frames_cache fs (bind_st m f)"
  unfolding frames_cache_def
proof
  fix s
  from assms(1) have m: "cache_extended_by_loads fs s (snd (m s))" by (simp add: frames_cache_def)
  show "cache_extended_by_loads fs s (snd (bind_st m f s))"
  proof (cases "m s")
    case (Pair r s')
    show ?thesis
    proof (cases r)
      case (Inl e)
      with Pair m show ?thesis by (simp add: bind_st_def)
    next
      case (Inr x)
      from assms(2) [of x] have "cache_extended_by_loads fs s' (snd (f x s'))"
        by (simp add: frames_cache_def)
      with m Pair have "cache_extended_by_loads fs s (snd (f x s'))"
        by (auto intro: cache_extended_trans)
      with Pair Inr show ?thesis by (simp add: bind_st_def)
    qed
  qed
qed

lemma frames_if:
  "frames_cache fs p \<Longrightarrow> frames_cache fs q \<Longrightarrow> frames_cache fs (if b then p else q)"
  by simp

lemma frames_case_option:
  "frames_cache fs p \<Longrightarrow> (\<And>a. frames_cache fs (q a)) \<Longrightarrow>
     frames_cache fs (case x of None \<Rightarrow> p | Some a \<Rightarrow> q a)"
  by (cases x) simp_all

lemmas frames_intros = frames_bind_st frames_load_data frames_pure_st frames_deref frames_assign
  frames_if frames_case_option

lemma frames_display_home: "frames_cache fs (display_home fs)"
  unfolding display_home_def by (intro frames_intros)

lemma frames_display_revenue_forecast: "frames_cache fs (display_revenue_forecast parse fs)"
  unfolding display_revenue_forecast_def by (intro frames_intros)

lemma frames_display_team_revenue: "frames_cache fs (display_team_revenue np_argsort fs)"
  unfolding display_team_revenue_def by (intro frames_intros)

lemma frames_display_fan_segmentation: "frames_cache fs (display_fan_segmentation fs)"
  unfolding display_fan_segmentation_def by (intro frames_intros)

lemma frames_display_model_performance: "frames_cache fs (display_model_performance np_argsort fs)"
  unfolding display_model_performance_def by (intro frames_intros)

lemma load_data_cached:
  "cache s n = Some v \<Longrightarrow>
     \<exists>r s'. load_data fs n s = (Inr r, s') \<and> content s' r = v"
  by (auto simp: load_data_def hand_out_def content_def split: option.splits)

lemma demo_forecast_cached:
  "cache (forecast_s1 demo_fs) ''revenue_forecast'' = Some (Some demo_forecast)"
  by (simp add: forecast_s1_def loader_defs demo_fs_def)

lemma demo_forecast_second_load:
  "load_data demo_fs ''revenue_forecast'' (forecast_s1 demo_fs) =
     (Inr (Some (Suc 0)),
      (forecast_s1 demo_fs)\<lparr>heap := (heap (forecast_s1 demo_fs))(Suc 0 := demo_forecast),
                              next_addr := 2\<rparr>)"
  by (simp add: load_data_def hand_out_def demo_forecast_cached)
    (simp add: forecast_s1_def loader_defs demo_fs_def)

lemma demo_forecast_mutated:
  "heap (forecast_s2 demo_fs) (Suc 0) =
     \<lparr>columns = [''Date'', ''Revenue_Forecast'', ''Upper_Bound'', ''Lower_Bound'', ''Day_of_Week''],
      rows = [[Timestamp 19723, Num 100, Num 120, Num 80, Str ''Monday''],
              [Timestamp 19725, Num 50, Num 60, Num 40, Str ''Wednesday'']]\<rparr>"
  unfolding forecast_s2_def
  by (simp add: display_revenue_forecast_def bind_st_def pure_st_def deref_def
      demo_forecast_second_load
      demo_forecast_def get_column_def cell_at_def bind_err_def to_datetime_def
      demo_parse_def assign_def set_column_def pad_def forecast_traces_def dt_day_name_def
      day_name_def weekdays_def revenue_by_day_def float_column_def groupby_sum_def
      List.map_filter_simps series_sum_def reindex_def reset_index_def px_chart_def)

text \<open>
  Claim C9. Whichever of the five panels runs, in whatever session: a table the cache
  held before the call is held unchanged after it, and a later load of that name, whatever
  the file system holds by then, returns content equal to it; an entry the call added is
  what the loader returned for the name. The in-place assignments of the forecast panel
  and the rename of the team panel act on the copy the cache handed out, or on a frame
  derived from it.
\<close>

theorem builders_never_mutate_cache:
  assumes "s' = snd (display_home fs s)
         \<or> s' = snd (display_revenue_forecast parse fs s)
         \<or> s' = snd (display_team_revenue np_argsort fs s)
         \<or> s' = snd (display_fan_segmentation fs s)
         \<or> s' = snd (display_model_performance np_argsort fs s)"
  shows "cache_extended_by_loads fs s s'
         \<and> (\<forall>n v. cache s n = Some v \<longrightarrow>
               cache s' n = Some v
               \<and> (\<exists>r s''. load_data fs' n s' = (Inr r, s'') \<and> content s'' r = v))"
proof -
  from assms have ext: "cache_extended_by_loads fs s s'"
    using frames_display_home [of fs] frames_display_revenue_forecast [of fs parse]
      frames_display_team_revenue [of fs np_argsort] frames_display_fan_segmentation [of fs]
      frames_display_model_performance [of fs np_argsort]
    unfolding frames_cache_def by blast
  have "cache s' n = Some v \<and> (\<exists>r s''. load_data fs' n s' = (Inr r, s'') \<and> content s'' r = v)"
    if "cache s n = Some v" for n v
  proof -
    from ext that have "cache s' n = Some v"
      unfolding cache_extended_by_loads_def by (metis option.distinct(1))
    with load_data_cached [of s' n v fs'] show ?thesis by blast
  qed
  with ext show ?thesis by blast
qed

theorem builders_never_mutate_cache_witness:
  "cache (forecast_s1 demo_fs) ''revenue_forecast'' = Some (Some demo_forecast)
   \<and> heap (forecast_s2 demo_fs) (Suc 0) =
       \<lparr>columns = [''Date'', ''Revenue_Forecast'', ''Upper_Bound'', ''Lower_Bound'', ''Day_of_Week''],
        rows = [[Timestamp 19723, Num 100, Num 120, Num 80, Str ''Monday''],
                [Timestamp 19725, Num 50, Num 60, Num 40, Str ''Wednesday'']]\<rparr>
   \<and> cache (forecast_s2 demo_fs) ''revenue_forecast'' = Some (Some demo_forecast)
   \<and> (\<exists>r s''. load_data Map.empty ''revenue_forecast'' (forecast_s2 demo_fs) = (Inr r, s'')
          \<and> content s'' r = Some demo_forecast)"
proof -
  have "forecast_s2 demo_fs = snd (display_home demo_fs (forecast_s1 demo_fs))
         \<or> forecast_s2 demo_fs = snd (display_revenue_forecast demo_parse demo_fs (forecast_s1 demo_fs))
         \<or> forecast_s2 demo_fs = snd (display_team_revenue argsort_stable demo_fs (forecast_s1 demo_fs))
         \<or> forecast_s2 demo_fs = snd (display_fan_segmentation demo_fs (forecast_s1 demo_fs))
         \<or> forecast_s2 demo_fs = snd (display_model_performance argsort_stable demo_fs (forecast_s1 demo_fs))"
    by (simp add: forecast_s2_def)
  from builders_never_mutate_cache [OF this, of Map.empty] demo_forecast_cached
  have "cache (forecast_s2 demo_fs) ''revenue_forecast'' = Some (Some demo_forecast)
        \<and> (\<exists>r s''. load_data Map.empty ''revenue_forecast'' (forecast_s2 demo_fs) = (Inr r, s'')
              \<and> content s'' r = Some demo_forecast)"
    by blast
  with demo_forecast_cached demo_forecast_mutated show ?thesis by blast
qed

section \<open>Properties of the sort\<close>

lemma map_fst_map_filter:
  "map fst (List.map_filter (\<lambda>iv. map_option (Pair (fst iv)) (snd iv)) ps)
     = map fst (filter (\<lambda>iv. snd iv \<noteq> None) ps)"
  by (induction ps) (auto simp: List.map_filter_simps split: option.splits)

lemma distinct_fst_non_nan_of: "distinct (map fst (non_nan_of items))"
  unfolding non_nan_of_def map_fst_map_filter
  by (rule distinct_map_filter) simp

lemma distinct_nan_idx_of: "distinct (nan_idx_of items)"
  unfolding nan_idx_of_def
  by (rule distinct_map_filter) simp

lemma in_zip_upt: "(i, v) \<in> set (zip [0..<length items] items) \<longleftrightarrow> i < length items \<and> items ! i = v"
proof
  assume "(i, v) \<in> set (zip [0..<length items] items)"
  then show "i < length items \<and> items ! i = v" by (auto simp: in_set_zip)
next
  assume "i < length items \<and> items ! i = v"
  then have "[0..<length items] ! i = i \<and> items ! i = v \<and> i < length [0..<length items] \<and> i < length items"
    by simp
  then show "(i, v) \<in> set (zip [0..<length items] items)"
    unfolding in_set_zip by (intro exI [of _ i]) simp
qed

lemma in_non_nan_of: "(i, x) \<in> set (non_nan_of items) \<longleftrightarrow> i < length items \<and> items ! i = Some x"
proof -
  have "(i, x) \<in> set (non_nan_of items)
          \<longleftrightarrow> (\<exists>iv \<in> set (zip [0..<length items] items). map_option (Pair (fst iv)) (snd iv) = Some (i, x))"
    unfolding non_nan_of_def List.map_filter_def by force
  also have "\<dots> \<longleftrightarrow> (i, Some x) \<in> set (zip [0..<length items] items)"
    by force
  finally show ?thesis by (simp add: in_zip_upt)
qed

lemma set_nan_idx_of: "set (nan_idx_of items) = {i. i < length items \<and> items ! i = None}"
proof -
  have "i \<in> set (nan_idx_of items) \<longleftrightarrow> (i, None) \<in> set (zip [0..<length items] items)" for i
    unfolding nan_idx_of_def by force
  then show ?thesis by (auto simp: in_zip_upt)
qed


lemma nargsort_descending:
  "nargsort f items False =
     rev (map (\<lambda>j. fst (rev (non_nan_of items) ! j)) (f (map snd (rev (non_nan_of items)))))
     @ nan_idx_of items"
  by (simp add: nargsort_def Let_def non_nan_of_def nan_idx_of_def)

lemma nargsort_descending_props:
  assumes "sorts f"
  shows "distinct (nargsort f items False)"
    and "set (nargsort f items False) = {..<length items}"
    and "sorted_wrt (\<lambda>i j. desc_order (items ! i) (items ! j)) (nargsort f items False)"
proof -
  define L where "L = rev (non_nan_of items)"
  define a where "a = f (map snd L)"
  define ix where "ix = map (\<lambda>j. fst (L ! j)) a"
  have eq: "nargsort f items False = rev ix @ nan_idx_of items"
    by (simp add: nargsort_descending ix_def a_def L_def)
  from assms have "distinct (f (map snd L)) \<and> set (f (map snd L)) = {..<length (map snd L)}
      \<and> sorted (map (\<lambda>j. map snd L ! j) (f (map snd L)))"
    unfolding sorts_def by blast
  then have da: "distinct a" and sa: "set a = {..<length L}"
    and so: "sorted (map (\<lambda>j. map snd L ! j) a)"
    unfolding a_def by simp_all
  have dL: "distinct (map fst L)"
    unfolding L_def by (simp add: rev_map [symmetric] distinct_fst_non_nan_of)
  have inL: "(i, x) \<in> set L \<longleftrightarrow> i < length items \<and> items ! i = Some x" for i x
    unfolding L_def by (simp add: in_non_nan_of)
  have item: "items ! fst (L ! j) = Some (snd (L ! j))" "fst (L ! j) < length items"
    if "j < length L" for j
  proof -
    from that have "L ! j \<in> set L" by simp
    with inL [of "fst (L ! j)" "snd (L ! j)"]
    show "items ! fst (L ! j) = Some (snd (L ! j))" "fst (L ! j) < length items"
      by simp_all
  qed
  have inj: "inj_on (\<lambda>j. fst (L ! j)) (set a)"
  proof (rule inj_onI)
    fix j k assume "j \<in> set a" "k \<in> set a" "fst (L ! j) = fst (L ! k)"
    with sa have jk: "j < length (map fst L)" "k < length (map fst L)"
      and e: "map fst L ! j = map fst L ! k"
      by simp_all
    from nth_eq_iff_index_eq [OF dL jk] e show "j = k" by blast
  qed
  have dix: "distinct ix" unfolding ix_def by (simp add: distinct_map da inj)
  have "set ix = (\<lambda>j. fst (L ! j)) ` {..<length L}" by (simp add: ix_def sa)
  also have "\<dots> = fst ` set L" by (auto simp: set_conv_nth image_iff)
  also have "\<dots> = {i. i < length items \<and> items ! i \<noteq> None}"
  proof (rule set_eqI)
    fix i
    have "i \<in> fst ` set L \<longleftrightarrow> (\<exists>x. (i, x) \<in> set L)" by force
    then show "i \<in> fst ` set L \<longleftrightarrow> i \<in> {i. i < length items \<and> items ! i \<noteq> None}"
      by (auto simp: inL)
  qed
  finally have six: "set ix = {i. i < length items \<and> items ! i \<noteq> None}" .
  show "distinct (nargsort f items False)"
    unfolding eq using dix distinct_nan_idx_of [of items] six set_nan_idx_of [of items] by auto
  show "set (nargsort f items False) = {..<length items}"
    unfolding eq using six set_nan_idx_of [of items] by auto
  have "sorted_wrt (\<lambda>j k. snd (L ! j) \<le> snd (L ! k)) a"
  proof -
    from so have "sorted_wrt (\<lambda>j k. map snd L ! j \<le> map snd L ! k) a"
      by (simp add: sorted_wrt_map)
    then show ?thesis
      by (rule sorted_wrt_mono_rel [rotated]) (simp add: sa)
  qed
  then have "sorted_wrt (\<lambda>j k. desc_order (items ! fst (L ! k)) (items ! fst (L ! j))) a"
    by (rule sorted_wrt_mono_rel [rotated]) (simp add: sa item desc_order_def)
  then have "sorted_wrt (\<lambda>i j. desc_order (items ! j) (items ! i)) ix"
    by (simp add: ix_def sorted_wrt_map)
  then have s1: "sorted_wrt (\<lambda>i j. desc_order (items ! i) (items ! j)) (rev ix)"
    by (simp add: sorted_wrt_rev)
  have s2: "sorted_wrt (\<lambda>i j. desc_order (items ! i) (items ! j)) (nan_idx_of items)"
    by (rule sorted_wrt_mono_rel [where P = "\<lambda>i j. True"])
       (simp_all add: set_nan_idx_of desc_order_def)
  show "sorted_wrt (\<lambda>i j. desc_order (items ! i) (items ! j)) (nargsort f items False)"
    unfolding eq using s1 s2
    by (simp add: sorted_wrt_append set_nan_idx_of desc_order_def)
qed

lemma sorts_argsort_stable: "sorts argsort_stable"
  by (simp add: sorts_def argsort_stable_def atLeast0LessThan sorted_sort_key)

section \<open>Claims about the feature importance chart\<close>

lemma sorted_wrt_insort_key_stable:
  fixes g :: "'a \<Rightarrow> real"
  assumes "sorted_wrt (\<lambda>p q. g p < g q \<or> (g p = g q \<and> lt p q)) ys"
    and "\<forall>y\<in>set ys. lt x y"
  shows "sorted_wrt (\<lambda>p q. g p < g q \<or> (g p = g q \<and> lt p q)) (insort_key g x ys)"
  using assms
proof (induction ys)
  case Nil
  then show ?case by simp
next
  case (Cons y ys)
  show ?case
  proof (cases "g x \<le> g y")
    case True
    have "g x < g z \<or> (g x = g z \<and> lt x z)" if "z \<in> set (y # ys)" for z
    proof -
      from Cons.prems(1) that have "g y \<le> g z" by auto
      with True Cons.prems(2) that show ?thesis by auto
    qed
    with True Cons.prems(1) show ?thesis by simp
  next
    case False
    with Cons show ?thesis by (auto simp: set_insort_key)
  qed
qed

lemma sorted_wrt_sort_key_stable:
  fixes g :: "'a \<Rightarrow> real"
  assumes "sorted_wrt lt xs"
  shows "sorted_wrt (\<lambda>p q. g p < g q \<or> (g p = g q \<and> lt p q)) (sort_key g xs)"
  using assms
proof (induction xs)
  case Nil
  then show ?case by simp
next
  case (Cons x xs)
  then show ?case by (simp add: sorted_wrt_insort_key_stable)
qed

lemma sorted_wrt_irrefl_distinct:
  "sorted_wrt R xs \<Longrightarrow> (\<And>x. \<not> R x x) \<Longrightarrow> distinct xs"
  by (induction xs) auto

lemma sorted_fst_filter_zip:
  "sorted_wrt (<) (map fst (filter P (zip [0..<length items] items)))"
proof -
  have "sorted_wrt (<) (map fst (zip [0..<length items] items))"
    by (simp add: map_fst_zip)
  then have "sorted_wrt (\<lambda>p q. fst p < fst q) (zip [0..<length items] items)"
    by (simp only: sorted_wrt_map)
  then have "sorted_wrt (\<lambda>p q. fst p < fst q) (filter P (zip [0..<length items] items))"
    by (rule sorted_wrt_filter)
  then show ?thesis by (simp only: sorted_wrt_map)
qed

lemma sorted_non_nan_of: "sorted_wrt (\<lambda>p q. fst p < fst q) (non_nan_of items)"
proof -
  have "sorted_wrt (<) (map fst (non_nan_of items))"
    unfolding non_nan_of_def map_fst_map_filter by (rule sorted_fst_filter_zip)
  then show ?thesis by (simp only: sorted_wrt_map)
qed

lemma sorted_nan_idx_of: "sorted_wrt (<) (nan_idx_of items)"
  unfolding nan_idx_of_def by (rule sorted_fst_filter_zip)

lemma take_take_append: "take n (take n xs @ ys) = take n (xs @ ys)"
  by (cases "n \<le> length xs") (simp_all add: min_def)

lemma series_nlargest_unfold:
  "series_nlargest f n items =
     (if n = 0 then []
      else if length items \<le> n then take n (nargsort f items False)
      else take n (map fst (sort_key (\<lambda>iv. - snd iv) (non_nan_of items)) @ nan_idx_of items))"
  unfolding series_nlargest_def Let_def non_nan_of_def nan_idx_of_def take_map [symmetric]
    take_take_append
  by (rule refl)

lemma ranked_positions:
  defines "M items \<equiv> map fst (sort_key (\<lambda>iv. - snd iv) (non_nan_of items)) @ nan_idx_of items"
  shows "sorted_wrt (ranks_before items) (M items)"
    and "set (M items) = {..<length items}"
proof -
  let ?S = "sort_key (\<lambda>iv. - snd iv) (non_nan_of items)"
  have S: "sorted_wrt (\<lambda>p q. - snd p < - snd q \<or> (- snd p = - snd q \<and> fst p < fst q)) ?S"
    by (rule sorted_wrt_sort_key_stable [OF sorted_non_nan_of])
  have inS: "p \<in> set ?S \<Longrightarrow> fst p < length items \<and> items ! fst p = Some (snd p)" for p
    using in_non_nan_of [of "fst p" "snd p" items] by simp
  have "sorted_wrt (\<lambda>p q. ranks_before items (fst p) (fst q)) ?S"
    using S
  proof (rule sorted_wrt_mono_rel [rotated])
    fix p q
    assume "p \<in> set ?S" "q \<in> set ?S"
      and r: "- snd p < - snd q \<or> (- snd p = - snd q \<and> fst p < fst q)"
    then have "items ! fst p = Some (snd p)" "items ! fst q = Some (snd q)"
      using inS by blast+
    with r show "ranks_before items (fst p) (fst q)"
      by (auto simp: ranks_before_def)
  qed
  then have s1: "sorted_wrt (ranks_before items) (map fst ?S)"
    by (simp only: sorted_wrt_map)
  have s2: "sorted_wrt (ranks_before items) (nan_idx_of items)"
    using sorted_nan_idx_of [of items]
    by (rule sorted_wrt_mono_rel [rotated]) (auto simp: ranks_before_def set_nan_idx_of)
  have cross: "ranks_before items i j" if "i \<in> set (map fst ?S)" "j \<in> set (nan_idx_of items)" for i j
  proof -
    from that(1) obtain p where "p \<in> set ?S" "i = fst p" by auto
    with inS have "items ! i = Some (snd p)" by blast
    moreover from that(2) have "items ! j = None" by (simp add: set_nan_idx_of)
    ultimately show ?thesis by (simp add: ranks_before_def)
  qed
  show "sorted_wrt (ranks_before items) (M items)"
    unfolding M_def using s1 s2 cross by (simp only: sorted_wrt_append) blast
  have "set (map fst ?S) = {i. i < length items \<and> items ! i \<noteq> None}"
  proof (rule set_eqI)
    fix i
    have "i \<in> set (map fst ?S) \<longleftrightarrow> (\<exists>x. (i, x) \<in> set (non_nan_of items))" by force
    then show "i \<in> set (map fst ?S) \<longleftrightarrow> i \<in> {i. i < length items \<and> items ! i \<noteq> None}"
      by (auto simp: in_non_nan_of)
  qed
  then show "set (M items) = {..<length items}"
    unfolding M_def using set_nan_idx_of [of items] by auto
qed

lemma ranks_before_irrefl: "\<not> ranks_before keys i i"
  by (simp add: ranks_before_def split: option.splits)

lemma series_nlargest_top:
  assumes "sorts f"
  shows "length (series_nlargest f n keys) = min n (length keys)
         \<and> distinct (series_nlargest f n keys)
         \<and> set (series_nlargest f n keys) \<subseteq> {..<length keys}
         \<and> (\<forall>i\<in>set (series_nlargest f n keys). \<forall>j<length keys.
               j \<notin> set (series_nlargest f n keys) \<longrightarrow> ranks_before keys i j)"
proof -
  consider (zero) "n = 0" | (slow) "n \<noteq> 0" "length keys \<le> n" | (fast) "n \<noteq> 0" "n < length keys"
    by linarith
  then show ?thesis
  proof cases
    case zero
    then show ?thesis by (simp add: series_nlargest_unfold)
  next
    case slow
    note p = nargsort_descending_props [OF assms, of keys]
    from p(1,2) have len: "length (nargsort f keys False) = length keys"
      using distinct_card [of "nargsort f keys False"] by simp
    with slow have "series_nlargest f n keys = nargsort f keys False"
      by (simp add: series_nlargest_unfold)
    with p len slow show ?thesis by auto
  next
    case fast
    define M where "M = map fst (sort_key (\<lambda>iv. - snd iv) (non_nan_of keys)) @ nan_idx_of keys"
    have s: "sorted_wrt (ranks_before keys) M" and st: "set M = {..<length keys}"
      unfolding M_def by (rule ranked_positions)+
    from s have d: "distinct M" by (rule sorted_wrt_irrefl_distinct) (rule ranks_before_irrefl)
    with st have len: "length M = length keys" using distinct_card [of M] by simp
    have eq: "series_nlargest f n keys = take n M"
      using fast by (simp add: series_nlargest_unfold M_def)
    have split: "M = take n M @ drop n M" by simp
    have sep: "ranks_before keys i j" if "i \<in> set (take n M)" "j < length keys" "j \<notin> set (take n M)" for i j
    proof -
      from that(2) st have "j \<in> set M" by simp
      with that(3) have "j \<in> set (drop n M)"
        by (metis Un_iff append_take_drop_id set_append)
      moreover from s have "sorted_wrt (ranks_before keys) (take n M @ drop n M)" by simp
      ultimately show ?thesis using that(1) unfolding sorted_wrt_append by blast
    qed
    have sub: "set (take n M) \<subseteq> {..<length keys}"
      using st set_take_subset [of n M] by blast
    from eq len fast d sub sep show ?thesis by (auto simp: min_def)
  qed
qed

lemma get_column_take_rows:
  assumes "get_column df c = Inr col" and "\<forall>i\<in>set idx. i < length (rows df)"
  shows "get_column (take_rows df idx) c = Inr (map (\<lambda>i. col ! i) idx)"
  using assms by (auto simp: get_column_def take_rows_def split: option.splits)

lemma get_column_present:
  "c \<in> set (columns df) \<Longrightarrow> \<exists>v. get_column df c = Inr v"
  by (cases "index_of c (columns df)") (simp_all add: get_column_def index_of_None_iff)

lemma px_chart_present:
  assumes "set cs \<subseteq> set (columns df)"
  shows "\<exists>fig. px_chart kind df cs = Inr fig"
proof -
  have "collect (map (\<lambda>c. case get_column df c of Inl e \<Rightarrow> Inl ValueError
                                       | Inr v \<Rightarrow> Inr (c, v)) cs)
          = Inr (map (\<lambda>c. (c, projr (get_column df c))) cs)"
  proof (rule collect_map_Inr)
    fix c assume "c \<in> set cs"
    with assms have "c \<in> set (columns df)" by blast
    from get_column_present [OF this] obtain v where "get_column df c = Inr v" ..
    then show "(case get_column df c of Inl e \<Rightarrow> Inl ValueError | Inr v \<Rightarrow> Inr (c, v))
                 = Inr (c, projr (get_column df c))"
      by simp
  qed
  then show ?thesis by (simp add: px_chart_def bind_err_def)
qed

lemma comparison_chart_Inr:
  assumes "comparison_ready df"
  shows "\<exists>fig. comparison_chart df = Inr fig"
proof -
  from assms obtain ms rm ma where c: "get_column df ''Model'' = Inr ms"
    "get_column df ''RMSE'' = Inr rm" "get_column df ''MAE'' = Inr ma"
    and v: "''Value'' \<notin> set (columns df)"
    unfolding comparison_ready_def using get_column_present by metis
  from c v obtain rs where
    m: "melt df ''Model'' [''RMSE'', ''MAE''] ''Metric'' ''Value''
          = Inr \<lparr>columns = [''Model'', ''Metric'', ''Value''], rows = rs\<rparr>"
    by (simp add: melt_def bind_err_def)
  have "\<exists>fig. px_chart ''bar'' \<lparr>columns = [''Model'', ''Metric'', ''Value''], rows = rs\<rparr>
                 [''Metric'', ''Value'', ''Model''] = Inr fig"
    by (rule px_chart_present) simp
  then show ?thesis by (simp add: comparison_chart_def m bind_err_def)
qed

lemma importance_chart_result:
  assumes "sorts f"
    and k: "float_column df ''importance'' = Inr keys"
    and ne: "keys \<noteq> []"
    and imp: "get_column df ''importance'' = Inr imp"
    and feat: "get_column df ''feature'' = Inr feat"
  shows "importance_chart f df =
           Inr (Chart ''bar'' [(''importance'', map (\<lambda>i. imp ! i) (series_nlargest f 15 keys)),
                               (''feature'', map (\<lambda>i. feat ! i) (series_nlargest f 15 keys))])"
proof -
  let ?idx = "series_nlargest f 15 keys"
  from series_nlargest_top [OF assms(1), of 15 keys] float_column_length [OF k]
  have valid: "\<forall>i\<in>set ?idx. i < length (rows df)" by auto
  have "px_chart ''bar'' (take_rows df ?idx) [''importance'', ''feature'']
          = Inr (Chart ''bar'' (zip [''importance'', ''feature'']
                  [map (\<lambda>i. imp ! i) ?idx, map (\<lambda>i. feat ! i) ?idx]))"
    by (rule px_chart_Inr)
       (simp add: get_column_take_rows [OF imp valid] get_column_take_rows [OF feat valid])
  then show ?thesis by (simp add: importance_chart_def nlargest_def k ne bind_err_def)
qed

lemma display_model_performance_unfold:
  assumes "load_data fs ''model_comparison'' s = (Inr c, s1)"
    and "load_data fs ''xgboost_importance'' s1 = (Inr (Some b), s2)"
  shows "display_model_performance f fs s =
           (bind_err (case c of Some a \<Rightarrow> bind_err (comparison_chart (heap s2 a)) (\<lambda>fig. Inr (Some fig))
                      | None \<Rightarrow> Inr None)
              (\<lambda>fig1. bind_err (bind_err (importance_chart f (heap s2 b)) (\<lambda>fig. Inr (Some fig)))
                 (\<lambda>fig2. Inr (PerformanceView fig1 fig2))), s2)"
  using assms
  by (auto simp: display_model_performance_def bind_st_def pure_st_def deref_def bind_err_def
      split: option.splits sum.splits)

lemma demo_performance_loads:
  "load_data demo_fs_performance ''model_comparison'' new_session
     = (Inr (Some 0), performance_s1 demo_fs_performance)"
  "load_data demo_fs_performance ''xgboost_importance'' (performance_s1 demo_fs_performance)
     = (Inr (Some (Suc 0)), performance_s2 demo_fs_performance)"
  by (simp_all add: performance_s1_def performance_s2_def loader_defs demo_fs_performance_def)

lemma demo_performance_heap:
  "heap (performance_s2 demo_fs_performance) 0 = demo_comparison"
  "heap (performance_s2 demo_fs_performance) (Suc 0) = demo_importance"
  by (simp_all add: performance_s1_def performance_s2_def loader_defs demo_fs_performance_def)

lemma demo_comparison_ready: "comparison_ready demo_comparison"
  by (simp add: comparison_ready_def demo_comparison_def)

lemma demo_comparison_chart:
  "comparison_chart demo_comparison =
     Inr (Chart ''bar''
           [(''Metric'', [Str ''RMSE'', Str ''RMSE'', Str ''MAE'', Str ''MAE'']),
            (''Value'', [Num 10, Num 12, Num 7, Num 9]),
            (''Model'', [Str ''XGBoost'', Str ''Prophet'', Str ''XGBoost'', Str ''Prophet''])])"
  by (simp add: comparison_chart_def melt_def px_chart_def get_column_def cell_at_def bind_err_def
      demo_comparison_def)

lemma demo_importance_columns:
  "float_column demo_importance ''importance'' = Inr (map Some demo_importances)"
  "get_column demo_importance ''importance'' = Inr (map Num demo_importances)"
  "get_column demo_importance ''feature'' = Inr (map Str demo_features)"
  by (simp_all add: float_column_def get_column_def cell_at_def bind_err_def demo_importance_def
      demo_features_def demo_importances_def)

lemma demo_nlargest:
  "series_nlargest f 15 (map Some demo_importances)
     = [2, 3, 4, 5, 6, 7, 8, 9, 10, 11, 12, 13, 14, 15, 1]"
  by (simp add: series_nlargest_def demo_importances_def Let_def)

lemma demo_performance_view:
  "display_model_performance f demo_fs_performance new_session =
     (Inr (PerformanceView
        (Some (Chart ''bar''
           [(''Metric'', [Str ''RMSE'', Str ''RMSE'', Str ''MAE'', Str ''MAE'']),
            (''Value'', [Num 10, Num 12, Num 7, Num 9]),
            (''Model'', [Str ''XGBoost'', Str ''Prophet'', Str ''XGBoost'', Str ''Prophet''])]))
        (Some (Chart ''bar''
           [(''importance'',
             [Num 20, Num 19, Num 18, Num 17, Num 16, Num 15, Num 14, Num 13, Num 12, Num 11,
              Num 10, Num 9, Num 8, Num 7, Num 5]),
            (''feature'',
             [Str ''f02'', Str ''f03'', Str ''f04'', Str ''f05'', Str ''f06'', Str ''f07'',
              Str ''f08'', Str ''f09'', Str ''f10'', Str ''f11'', Str ''f12'', Str ''f13'',
              Str ''f14'', Str ''f15'', Str ''f01''])]))),
      performance_s2 demo_fs_performance)"
proof -
  have ne: "map Some demo_importances \<noteq> []" by (simp add: demo_importances_def)
  have "importance_chart f demo_importance =
     Inr (Chart ''bar''
           [(''importance'',
             [Num 20, Num 19, Num 18, Num 17, Num 16, Num 15, Num 14, Num 13, Num 12, Num 11,
              Num 10, Num 9, Num 8, Num 7, Num 5]),
            (''feature'',
             [Str ''f02'', Str ''f03'', Str ''f04'', Str ''f05'', Str ''f06'', Str ''f07'',
              Str ''f08'', Str ''f09'', Str ''f10'', Str ''f11'', Str ''f12'', Str ''f13'',
              Str ''f14'', Str ''f15'', Str ''f01''])])"
    unfolding importance_chart_def nlargest_def demo_importance_columns bind_err_def sum.case
      if_not_P [OF ne] demo_nlargest
    by (simp add: px_chart_def get_column_def take_rows_def cell_at_def bind_err_def
        demo_importance_def demo_features_def demo_importances_def)
  then show ?thesis
    unfolding display_model_performance_unfold [OF demo_performance_loads] demo_performance_heap
    by (simp add: bind_err_def demo_performance_heap demo_comparison_chart)
qed

text \<open>
  Claim C8, as the code has it. Whatever argsort numpy runs, as long as it sorts: the
  importance table is present with its two columns, \<^verbatim>\<open>importance\<close> numeric, and at least
  one row, and the model comparison table is absent or has what its chart needs. Then the
  panel returns, and the bars of its second chart are rows \<open>idx\<close> of the table, where
  \<open>idx\<close> has 15 positions, or all of them when the table has fewer rows, no position
  twice, and every row in \<open>idx\<close> ranks before every row left out: it has a larger
  importance, or the same importance and stands earlier in the table (so of two rows that
  tie at the cutoff, the earlier one is selected).
\<close>

theorem display_model_performance_top_15:
  assumes "sorts np_argsort"
    and "load_data fs ''model_comparison'' s = (Inr c, s1)"
    and "load_data fs ''xgboost_importance'' s1 = (Inr (Some b), s2)"
    and "\<forall>a. c = Some a \<longrightarrow> comparison_ready (heap s2 a)"
    and "float_column (heap s2 b) ''importance'' = Inr keys"
    and "keys \<noteq> []"
    and "get_column (heap s2 b) ''importance'' = Inr imp"
    and "get_column (heap s2 b) ''feature'' = Inr feat"
  shows "\<exists>fig1 idx.
           display_model_performance np_argsort fs s =
             (Inr (PerformanceView fig1
                     (Some (Chart ''bar'' [(''importance'', map (\<lambda>i. imp ! i) idx),
                                           (''feature'', map (\<lambda>i. feat ! i) idx)]))), s2)
           \<and> (fig1 = None \<longleftrightarrow> c = None)
           \<and> length idx = min 15 (length keys)
           \<and> distinct idx \<and> set idx \<subseteq> {..<length keys}
           \<and> (\<forall>i\<in>set idx. \<forall>j<length keys. j \<notin> set idx \<longrightarrow> ranks_before keys i j)"
proof -
  let ?idx = "series_nlargest np_argsort 15 keys"
  let ?cmp = "case c of Some a \<Rightarrow> bind_err (comparison_chart (heap s2 a)) (\<lambda>fig. Inr (Some fig))
              | None \<Rightarrow> Inr None"
  have "\<exists>fig1. ?cmp = Inr fig1 \<and> (fig1 = None \<longleftrightarrow> c = None)"
  proof (cases c)
    case None
    then show ?thesis by simp
  next
    case (Some a)
    with assms(4) have "comparison_ready (heap s2 a)" by simp
    from comparison_chart_Inr [OF this] obtain fig where "comparison_chart (heap s2 a) = Inr fig" ..
    with Some show ?thesis by (simp add: bind_err_def)
  qed
  then obtain fig1 where cmp: "?cmp = Inr fig1" and none: "fig1 = None \<longleftrightarrow> c = None" by blast
  have "display_model_performance np_argsort fs s =
          (Inr (PerformanceView fig1
                  (Some (Chart ''bar'' [(''importance'', map (\<lambda>i. imp ! i) ?idx),
                                        (''feature'', map (\<lambda>i. feat ! i) ?idx)]))), s2)"
    unfolding display_model_performance_unfold [OF assms(2,3)] cmp
      importance_chart_result [OF assms(1,5,6,7,8)]
    by (simp add: bind_err_def)
  with none series_nlargest_top [OF assms(1), of 15 keys] show ?thesis by blast
qed

theorem display_model_performance_top_15_witness:
  "sorts argsort_stable
   \<and> load_data demo_fs_performance ''model_comparison'' new_session
       = (Inr (Some 0), performance_s1 demo_fs_performance)
   \<and> load_data demo_fs_performance ''xgboost_importance'' (performance_s1 demo_fs_performance)
       = (Inr (Some (Suc 0)), performance_s2 demo_fs_performance)
   \<and> comparison_ready (heap (performance_s2 demo_fs_performance) 0)
   \<and> float_column (heap (performance_s2 demo_fs_performance) (Suc 0)) ''importance''
       = Inr (map Some demo_importances)
   \<and> map Some demo_importances \<noteq> []
   \<and> get_column (heap (performance_s2 demo_fs_performance) (Suc 0)) ''importance''
       = Inr (map Num demo_importances)
   \<and> get_column (heap (performance_s2 demo_fs_performance) (Suc 0)) ''feature''
       = Inr (map Str demo_features)
   \<and> display_model_performance argsort_stable demo_fs_performance new_session =
       (Inr (PerformanceView
          (Some (Chart ''bar''
           [(''Metric'', [Str ''RMSE'', Str ''RMSE'', Str ''MAE'', Str ''MAE'']),
            (''Value'', [Num 10, Num 12, Num 7, Num 9]),
            (''Model'', [Str ''XGBoost'', Str ''Prophet'', Str ''XGBoost'', Str ''Prophet''])]))
          (Some (Chart ''bar''
           [(''importance'',
             [Num 20, Num 19, Num 18, Num 17, Num 16, Num 15, Num 14, Num 13, Num 12, Num 11,
              Num 10, Num 9, Num 8, Num 7, Num 5]),
            (''feature'',
             [Str ''f02'', Str ''f03'', Str ''f04'', Str ''f05'', Str ''f06'', Str ''f07'',
              Str ''f08'', Str ''f09'', Str ''f10'', Str ''f11'', Str ''f12'', Str ''f13'',
              Str ''f14'', Str ''f15'', Str ''f01''])]))),
        performance_s2 demo_fs_performance)
   \<and> (\<exists>fig1 idx.
         display_model_performance argsort_stable demo_fs_performance new_session =
           (Inr (PerformanceView fig1
                   (Some (Chart ''bar''
                      [(''importance'', map (\<lambda>i. map Num demo_importances ! i) idx),
                       (''feature'', map (\<lambda>i. map Str demo_features ! i) idx)]))),
            performance_s2 demo_fs_performance)
         \<and> (fig1 = None \<longleftrightarrow> Some (0 :: nat) = None)
         \<and> length idx = min 15 (length (map Some demo_importances))
         \<and> distinct idx \<and> set idx \<subseteq> {..<length (map Some demo_importances)}
         \<and> (\<forall>i\<in>set idx. \<forall>j<length (map Some demo_importances).
               j \<notin> set idx \<longrightarrow> ranks_before (map Some demo_importances) i j))"
proof -
  have c: "float_column (heap (performance_s2 demo_fs_performance) (Suc 0)) ''importance''
             = Inr (map Some demo_importances)"
    "get_column (heap (performance_s2 demo_fs_performance) (Suc 0)) ''importance''
       = Inr (map Num demo_importances)"
    "get_column (heap (performance_s2 demo_fs_performance) (Suc 0)) ''feature''
       = Inr (map Str demo_features)"
    by (simp_all only: demo_performance_heap demo_importance_columns)
  have ne: "map Some demo_importances \<noteq> []" by (simp add: demo_importances_def)
  have ready: "comparison_ready (heap (performance_s2 demo_fs_performance) 0)"
    by (simp only: demo_performance_heap demo_comparison_ready)
  then have present: "\<forall>a. Some (0 :: nat) = Some a
                  \<longrightarrow> comparison_ready (heap (performance_s2 demo_fs_performance) a)"
    by simp
  note r = demo_performance_view [of argsort_stable]
  note t = display_model_performance_top_15
             [OF sorts_argsort_stable demo_performance_loads present c(1) ne c(2,3)]
  from sorts_argsort_stable demo_performance_loads ready c ne r t show ?thesis by blast
qed

text \<open>
  Claim C8 as stated fails for a table without rows: of a file that holds the header line
  only pandas types the columns as \<^verbatim>\<open>object\<close>, \<^verbatim>\<open>nlargest\<close> refuses the column, and the
  panel raises TypeError where the claim has it select all rows, here none. The argsort
  is not reached.
\<close>

theorem display_model_performance_header_only_counterexample:
  "fst (display_model_performance argsort_stable demo_fs_importance_header_only new_session)
     = Inl TypeError"
  by (simp add: display_model_performance_def bind_st_def pure_st_def deref_def bind_err_def
      importance_chart_def nlargest_def float_column_def get_column_def
      loader_defs demo_fs_importance_header_only_def demo_importance_header_only_def)

end
